theory Spec2Isabelle
  imports Main "HOL-Library.Sublist"
begin

section \<open>Python strings and dictionaries used by \<open>dns_manager/core.py\<close>\<close>

text \<open>
  Text is a \<open>string\<close> (a list of characters). The operations below are the ones the
  source applies to text: \<open>sub in s\<close>, \<open>s.endswith(suf)\<close>, \<open>s.split(c)\<close> for a
  one-character separator, and \<open>str(n)\<close> for an integer.
\<close>

fun py_in :: "string \<Rightarrow> string \<Rightarrow> bool" where
  "py_in sub [] = (sub = [])"
| "py_in sub (c # cs) = (prefix sub (c # cs) \<or> py_in sub cs)"

definition endswith :: "string \<Rightarrow> string \<Rightarrow> bool" where
  "endswith s suf = suffix suf s"

text \<open>
  \<open>split sep s\<close> cuts \<open>s\<close> at every \<open>sep\<close>. The result is never empty, so the
  first case of the distinction below does not occur.
\<close>

fun split :: "char \<Rightarrow> string \<Rightarrow> string list" where
  "split sep [] = [[]]"
| "split sep (c # cs) =
     (case split sep cs of
        [] \<Rightarrow> [[c]]
      | part # parts \<Rightarrow> if c = sep then [] # part # parts else (c # part) # parts)"

definition digit :: "nat \<Rightarrow> char" where
  "digit d = ''0123456789'' ! d"

fun str_nat :: "nat \<Rightarrow> string" where
  "str_nat n = (if n < 10 then [digit n] else str_nat (n div 10) @ [digit (n mod 10)])"

definition str_int :: "int \<Rightarrow> string" where
  "str_int i = (if i < 0 then ''-'' @ str_nat (nat (- i)) else str_nat (nat i))"

text \<open>
  Modelled from the spec: \<open>exceptions.py\<close>, which declares \<open>DNSConfigError\<close>, is not
  among the sources; the spec describes it as the single configuration-error kind
  carrying a human-readable message, so \<open>str(e)\<close> of it is that message.

  The other constructors are the exceptions that the operations can meet besides:
  \<open>RemoteError m\<close> stands for any exception raised by the SSH library, with
  \<open>str(e) = m\<close>; \<open>KeyError\<close>, \<open>IndexError\<close> and \<open>TypeError\<close> are Python's own.
\<close>

datatype exn =
    DNSConfigError string
  | KeyError string
  | IndexError string
  | TypeError string
  | RemoteError string

fun str_exn :: "exn \<Rightarrow> string" where
  "str_exn (DNSConfigError m) = m"
| "str_exn (KeyError k) = [CHR 0x27] @ k @ [CHR 0x27]"
| "str_exn (IndexError m) = m"
| "str_exn (TypeError m) = m"
| "str_exn (RemoteError m) = m"

type_synonym pydict = "string \<rightharpoonup> string"

text \<open>
  Python keeps text (\<open>str\<close>) and bytes apart. What is read from a remote file is
  bytes; \<open>execute_command\<close> decodes what it reads, \<open>delete_zone\<close> does not.
\<close>

datatype pytext = Str string | Bytes string

text \<open>
  The \<open>zone_config\<close> argument: \<open>zone_config.get('type', 'master')\<close> and
  \<open>zone_config.get('records', [])\<close> read two optional entries.
\<close>

record zone_config =
  ztype :: "string option"
  records :: "pydict list option"

section \<open>Rendering of a forward zone (\<open>NamedServer.add_zone\<close>, lines 155--188)\<close>

definition zone_header :: "string \<Rightarrow> int \<Rightarrow> string" where
  \<open>zone_header zone_name now =
     ''$TTL 86400\<newline>'' @
     ''    @       IN      SOA     '' @ zone_name @ ''. admin.'' @ zone_name @ ''. (\<newline>'' @
     ''                            '' @ str_int now @ ''  ; Serial\<newline>'' @
     ''                            3600        ; Refresh\<newline>'' @
     ''                            1800        ; Retry\<newline>'' @
     ''                            604800      ; Expire\<newline>'' @
     ''                            86400 )     ; Minimum TTL\<newline>'' @
     ''\<newline>'' @
     ''    ; Name servers\<newline>'' @
     ''    @       IN      NS      ns1.'' @ zone_name @ ''.\<newline>'' @
     ''    @       IN      NS      ns2.'' @ zone_name @ ''.\<newline>'' @
     ''\<newline>'' @
     ''    ; A Records and CNAME Records\<newline>'' @
     ''    ''\<close>

text \<open>The first loop: \<open>zone_content\<close> grows by one line for each record of type A.\<close>

fun add_a_records :: "pydict list \<Rightarrow> string \<Rightarrow> exn + string" where
  "add_a_records [] zone_content = Inr zone_content"
| "add_a_records (record # rest) zone_content =
     (case record ''type'' of
        None \<Rightarrow> Inl (KeyError ''type'')
      | Some t \<Rightarrow>
          if t = ''A'' then
            (case record ''name'' of
               None \<Rightarrow> Inl (KeyError ''name'')
             | Some n \<Rightarrow>
                 if n = ''@'' then
                   (case record ''value'' of
                      None \<Rightarrow> Inl (KeyError ''value'')
                    | Some v \<Rightarrow>
                        add_a_records rest
                          (zone_content @ ''@    IN    A    '' @ v @ ''\<newline>''))
                 else
                   (case record ''value'' of
                      None \<Rightarrow> Inl (KeyError ''value'')
                    | Some v \<Rightarrow>
                        add_a_records rest
                          (zone_content @ n @ ''    IN    A    '' @ v @ ''\<newline>'')))
          else add_a_records rest zone_content)"

text \<open>The value of a CNAME record gets a final dot when it is a fully qualified name.\<close>

definition cname_value :: "string \<Rightarrow> string" where
  "cname_value v =
     (if py_in ''.'' v then
        (if \<not> endswith v ''.'' then v @ ''.'' else v)
      else v)"

text \<open>The second loop: one line for each record of type CNAME.\<close>

fun add_cname_records :: "pydict list \<Rightarrow> string \<Rightarrow> exn + string" where
  "add_cname_records [] zone_content = Inr zone_content"
| "add_cname_records (record # rest) zone_content =
     (case record ''type'' of
        None \<Rightarrow> Inl (KeyError ''type'')
      | Some t \<Rightarrow>
          if t = ''CNAME'' then
            (case record ''value'' of
               None \<Rightarrow> Inl (KeyError ''value'')
             | Some v \<Rightarrow>
                 (case record ''name'' of
                    None \<Rightarrow> Inl (KeyError ''name'')
                  | Some n \<Rightarrow>
                      add_cname_records rest
                        (zone_content @ n @ ''    IN    CNAME    '' @ cname_value v
                           @ ''\<newline>'')))
          else add_cname_records rest zone_content)"

definition get_records :: "zone_config \<Rightarrow> pydict list" where
  "get_records zc = (case records zc of None \<Rightarrow> [] | Some rs \<Rightarrow> rs)"

definition render_zone :: "string \<Rightarrow> int \<Rightarrow> zone_config \<Rightarrow> exn + string" where
  "render_zone zone_name now zc =
     (case add_a_records (get_records zc) (zone_header zone_name now) of
        Inl e \<Rightarrow> Inl e
      | Inr c \<Rightarrow> add_cname_records (get_records zc) c)"

section \<open>Rendering of a reverse zone (\<open>NamedServer.add_ptr_zone\<close>, lines 240--260)\<close>

definition reverse_zone :: "string \<Rightarrow> exn + string" where
  "reverse_zone network =
     (let ip_parts = split CHR ''.'' network in
      if length ip_parts < 3 then Inl (IndexError ''list index out of range'')
      else Inr (ip_parts ! 2 @ ''.'' @ ip_parts ! 1 @ ''.'' @ ip_parts ! 0
                  @ ''.in-addr.arpa''))"

definition ptr_header :: "string \<Rightarrow> int \<Rightarrow> string" where
  \<open>ptr_header rz now =
     ''$TTL 86400\<newline>'' @
     ''@       IN      SOA     ns1.'' @ rz @ ''. admin.'' @ rz @ ''. (\<newline>'' @
     ''                        '' @ str_int now @ ''  ; Serial\<newline>'' @
     ''                        3600        ; Refresh\<newline>'' @
     ''                        1800        ; Retry\<newline>'' @
     ''                        604800      ; Expire\<newline>'' @
     ''                        86400 )     ; Minimum TTL\<newline>'' @
     ''\<newline>'' @
     ''@       IN      NS      ns1.'' @ rz @ ''.\<newline>'' @
     ''@       IN      NS      ns2.'' @ rz @ ''.\<newline>'' @
     ''\<newline>'' @
     ''; PTR Records\<newline>''\<close>

fun add_ptr_records :: "pydict list \<Rightarrow> string \<Rightarrow> exn + string" where
  "add_ptr_records [] zone_content = Inr zone_content"
| "add_ptr_records (record # rest) zone_content =
     (case record ''ip'' of
        None \<Rightarrow> Inl (KeyError ''ip'')
      | Some a \<Rightarrow>
          (let ip = last (split CHR ''.'' a) in
           case record ''hostname'' of
             None \<Rightarrow> Inl (KeyError ''hostname'')
           | Some h \<Rightarrow>
               add_ptr_records rest
                 (zone_content @ ip @ ''    IN    PTR    '' @ h @ ''\<newline>'')))"

section \<open>The remote host and the SSH session (\<open>SSHClient\<close>)\<close>

text \<open>
  The remote host is what the program cannot see into: a file system, here the text of
  each file by path, and a shell. The \<open>trace\<close> keeps what the session did, in order:
  every command passed to \<open>execute_command\<close> with its outcome (\<open>Inl m\<close> when the call
  raised with message \<open>m\<close>, \<open>Inr (stdout, stderr)\<close> otherwise), and every text written
  through SFTP in mode \<open>'w'\<close> (\<open>Put\<close>) or \<open>'a'\<close> (\<open>Append\<close>).
\<close>

datatype event =
    Exec string "string + (string \<times> string)"
  | Put string string
  | Append string string

record world =
  files :: "string \<rightharpoonup> string"
  trace :: "event list"

record ssh_client =
  hostname :: string
  username :: string
  password :: "string option"
  key_filename :: "string option"

text \<open>
  The environment fixes how the host answers: \<open>shell\<close> gives the outcome of a command
  and the file system it leaves, \<open>sftp_error\<close> says whether opening or writing a remote
  file raises, \<open>clock\<close> is \<open>int(time.time())\<close>, and \<open>connect_error\<close> says whether
  opening the session raises. All of them may depend on everything that happened before.
  \<open>re_other zone_name text\<close> is what \<open>re.sub\<close> does in \<open>delete_zone\<close> for a zone
  name that holds a regular-expression operator other than the dot (see below).
\<close>

record env =
  shell :: "world \<Rightarrow> string \<Rightarrow> (string + (string \<times> string)) \<times> (string \<rightharpoonup> string)"
  sftp_error :: "world \<Rightarrow> string \<Rightarrow> string option"
  clock :: "world \<Rightarrow> int"
  connect_error :: "world \<Rightarrow> ssh_client \<Rightarrow> string option"
  re_other :: "string \<Rightarrow> pytext \<Rightarrow> exn + string"

text \<open>An operation runs in a world and ends with a value or an exception.\<close>

type_synonym 'a op = "world \<Rightarrow> (exn + 'a) \<times> world"

definition ret :: "'a \<Rightarrow> 'a op" where
  "ret x w = (Inr x, w)"

definition raise :: "exn \<Rightarrow> 'a op" where
  "raise e w = (Inl e, w)"

definition bnd :: "'a op \<Rightarrow> ('a \<Rightarrow> 'b op) \<Rightarrow> 'b op" where
  "bnd m f w = (case m w of (Inl e, w') \<Rightarrow> (Inl e, w') | (Inr x, w') \<Rightarrow> f x w')"

text \<open>\<open>try: m except Exception as e: h e\<close>\<close>

definition catch :: "'a op \<Rightarrow> (exn \<Rightarrow> 'a op) \<Rightarrow> 'a op" where
  "catch m h w = (case m w of (Inl e, w') \<Rightarrow> h e w' | (Inr x, w') \<Rightarrow> (Inr x, w'))"

definition lift :: "exn + 'a \<Rightarrow> 'a op" where
  "lift r w = (r, w)"

definition getitem :: "pydict \<Rightarrow> string \<Rightarrow> exn + string" where
  "getitem d k = (case d k of None \<Rightarrow> Inl (KeyError k) | Some v \<Rightarrow> Inr v)"

definition connect :: "env \<Rightarrow> ssh_client \<Rightarrow> unit op" where
  "connect E c w =
     (case connect_error E w c of
        Some m \<Rightarrow>
          (Inl (DNSConfigError (''Failed to connect to '' @ hostname c @ '': '' @ m)), w)
      | None \<Rightarrow> (Inr (), w))"

text \<open>\<open>int(time.time())\<close>\<close>

definition time_time :: "env \<Rightarrow> int op" where
  "time_time E w = (Inr (clock E w), w)"

definition execute_command :: "env \<Rightarrow> string \<Rightarrow> (string \<times> string) op" where
  "execute_command E command w =
     (case shell E w command of
        (r, fs) \<Rightarrow>
          (case r of Inl m \<Rightarrow> Inl (RemoteError m) | Inr out \<Rightarrow> Inr out,
           \<lparr>files = fs, trace = trace w @ [Exec command r]\<rparr>))"

text \<open>\<open>for cmd in commands: self.ssh.execute_command(cmd)\<close>\<close>

fun run_commands :: "env \<Rightarrow> string list \<Rightarrow> unit op" where
  "run_commands E [] = ret ()"
| "run_commands E (cmd # cmds) = bnd (execute_command E cmd) (\<lambda>_. run_commands E cmds)"

text \<open>
  \<open>with self.ssh.client.open_sftp() as sftp: with sftp.file(path, mode) as f: ...\<close>
  for the modes \<open>'w'\<close>, \<open>'a'\<close> and \<open>'r'\<close>. Reading a file that does not exist raises;
  \<open>f.read()\<close> gives the content of the file as bytes.
\<close>

definition sftp_write :: "env \<Rightarrow> string \<Rightarrow> string \<Rightarrow> unit op" where
  "sftp_write E path content w =
     (case sftp_error E w path of
        Some m \<Rightarrow> (Inl (RemoteError m), w)
      | None \<Rightarrow>
          (Inr (), \<lparr>files = (files w)(path \<mapsto> content),
                     trace = trace w @ [Put path content]\<rparr>))"

definition sftp_append :: "env \<Rightarrow> string \<Rightarrow> string \<Rightarrow> unit op" where
  "sftp_append E path content w =
     (case sftp_error E w path of
        Some m \<Rightarrow> (Inl (RemoteError m), w)
      | None \<Rightarrow>
          (Inr (),
           \<lparr>files = (files w)(path \<mapsto>
                        (case files w path of None \<Rightarrow> [] | Some old \<Rightarrow> old) @ content),
            trace = trace w @ [Append path content]\<rparr>))"

definition sftp_read :: "env \<Rightarrow> string \<Rightarrow> pytext op" where
  "sftp_read E path w =
     (case sftp_error E w path of
        Some m \<Rightarrow> (Inl (RemoteError m), w)
      | None \<Rightarrow>
          (case files w path of
             None \<Rightarrow> (Inl (RemoteError ''[Errno 2] No such file''), w)
           | Some content \<Rightarrow> (Inr (Bytes content), w)))"

section \<open>The BIND configurator (\<open>NamedServer\<close>)\<close>

definition named_conf :: string where
  "named_conf = ''/etc/named.conf''"

definition zones_dir :: string where
  "zones_dir = ''/var/named''"

definition named_install :: "env \<Rightarrow> unit op" where
  "named_install E =
     bnd (execute_command E ''rpm -q bind'') (\<lambda>(stdout, _).
     if py_in ''bind-'' stdout then ret ()
     else
       catch
         (bnd (execute_command E ''yum -y install bind bind-utils'') (\<lambda>_.
          bnd (execute_command E ''systemctl enable named'') (\<lambda>_.
          bnd (execute_command E ''systemctl start named'') (\<lambda>_.
          ret ()))))
         (\<lambda>e. raise (DNSConfigError (''Failed to install BIND: '' @ str_exn e))))"

definition named_conf_content :: "string \<Rightarrow> string" where
  \<open>named_conf_content forwarder =
     ''\<newline>'' @
     ''options {\<newline>'' @
     ''        listen-on port 53 { any; };\<newline>'' @
     ''        listen-on-v6 { none; };\<newline>'' @
     ''        directory       "/var/named";\<newline>'' @
     ''        dump-file       "/var/named/data/cache_dump.db";\<newline>'' @
     ''        statistics-file "/var/named/data/named_stats.txt";\<newline>'' @
     ''        memstatistics-file "/var/named/data/named_mem_stats.txt";\<newline>'' @
     ''        secroots-file   "/var/named/data/named.secroots";\<newline>'' @
     ''        recursing-file  "/var/named/data/named.recursing";\<newline>'' @
     ''        allow-query     { any; };\<newline>'' @
     ''        forward only;\<newline>'' @
     ''        forwarders { '' @ forwarder @ ''; };\<newline>'' @
     ''};\<newline>'' @
     ''\<newline>'' @
     ''logging {\<newline>'' @
     ''        channel default_debug {\<newline>'' @
     ''                file "data/named.run";\<newline>'' @
     ''                severity dynamic;\<newline>'' @
     ''        };\<newline>'' @
     ''};\<newline>'' @
     ''\<newline>'' @
     ''zone "." IN {\<newline>'' @
     ''        type hint;\<newline>'' @
     ''        file "named.ca";\<newline>'' @
     ''};\<newline>''\<close>

definition named_configure :: "env \<Rightarrow> pydict \<Rightarrow> unit op" where
  "named_configure E config =
     catch
       (bnd (named_install E) (\<lambda>_.
        bnd (execute_command E ''cp /etc/named.conf /etc/named.conf.bak 2>/dev/null || true'') (\<lambda>_.
        bnd (lift (getitem config ''forwarder'')) (\<lambda>forwarder.
        bnd (sftp_write E named_conf (named_conf_content forwarder)) (\<lambda>_.
        bnd (execute_command E ''named-checkconf'') (\<lambda>(_, stderr).
        if stderr \<noteq> [] then raise (DNSConfigError (''named.conf syntax error: '' @ stderr))
        else
          bnd (run_commands E
                [''chown root:named /etc/named.conf'',
                 ''restorecon -v /etc/named.conf'',
                 ''chmod 640 /etc/named.conf'']) (\<lambda>_.
          bnd (execute_command E ''systemctl restart named'') (\<lambda>_.
          bnd (execute_command E ''systemctl is-active named'') (\<lambda>(stdout, _).
          if \<not> py_in ''active'' stdout
          then raise (DNSConfigError ''named failed to start after configuration'')
          else ret ())))))))))
       (\<lambda>e. raise (DNSConfigError (''Failed to configure BIND: '' @ str_exn e)))"

definition zone_conf :: "string \<Rightarrow> zone_config \<Rightarrow> string" where
  \<open>zone_conf zone_name zc =
     ''\<newline>'' @
     ''    zone "'' @ zone_name @ ''" IN {\<newline>'' @
     ''            type '' @ (case ztype zc of None \<Rightarrow> ''master'' | Some t \<Rightarrow> t) @ '';\<newline>'' @
     ''            file "db.'' @ zone_name @ ''";\<newline>'' @
     ''            allow-update { none; };\<newline>'' @
     ''    };\<newline>'' @
     ''    ''\<close>

definition zone_file_path :: "string \<Rightarrow> string" where
  "zone_file_path zone_name = zones_dir @ ''/db.'' @ zone_name"

definition add_zone :: "env \<Rightarrow> string \<Rightarrow> zone_config \<Rightarrow> unit op" where
  "add_zone E zone_name zc =
     catch
       (bnd (time_time E) (\<lambda>now.
        bnd (lift (render_zone zone_name now zc)) (\<lambda>zone_content.
        bnd (sftp_write E (zone_file_path zone_name) zone_content) (\<lambda>_.
        bnd (run_commands E
              [''chown root:named '' @ zone_file_path zone_name,
               ''chmod 640 '' @ zone_file_path zone_name,
               ''restorecon -v '' @ zone_file_path zone_name]) (\<lambda>_.
        bnd (sftp_append E named_conf (zone_conf zone_name zc)) (\<lambda>_.
        bnd (execute_command E ''named-checkconf'') (\<lambda>(_, stderr).
        if stderr \<noteq> [] then raise (DNSConfigError (''Zone configuration error: '' @ stderr))
        else
          bnd (execute_command E
                (''named-checkzone '' @ zone_name @ '' '' @ zone_file_path zone_name))
            (\<lambda>(_, stderr).
          if stderr \<noteq> [] \<and> \<not> py_in ''OK'' stderr
          then raise (DNSConfigError (''Zone file syntax error: '' @ stderr))
          else
            bnd (execute_command E ''systemctl restart named'') (\<lambda>_.
            ret ())))))))))
       (\<lambda>e. raise (DNSConfigError (''Zone configuration failed: '' @ str_exn e)))"

definition ptr_zone_conf :: "string \<Rightarrow> string" where
  \<open>ptr_zone_conf rz =
     ''\<newline>'' @
     ''zone "'' @ rz @ ''" IN {\<newline>'' @
     ''        type master;\<newline>'' @
     ''        file "db.'' @ rz @ ''";\<newline>'' @
     ''        allow-update { none; };\<newline>'' @
     ''};\<newline>''\<close>

definition add_ptr_zone :: "env \<Rightarrow> string \<Rightarrow> zone_config \<Rightarrow> unit op" where
  "add_ptr_zone E network zc =
     catch
       (bnd (lift (reverse_zone network)) (\<lambda>rz.
        bnd (time_time E) (\<lambda>now.
        bnd (lift (add_ptr_records (get_records zc) (ptr_header rz now))) (\<lambda>zone_content.
        bnd (sftp_write E (zone_file_path rz) zone_content) (\<lambda>_.
        bnd (run_commands E
              [''chown root:named '' @ zone_file_path rz,
               ''chmod 640 '' @ zone_file_path rz,
               ''restorecon -v '' @ zone_file_path rz]) (\<lambda>_.
        bnd (sftp_append E named_conf (ptr_zone_conf rz)) (\<lambda>_.
        bnd (execute_command E ''named-checkconf'') (\<lambda>(_, stderr).
        if stderr \<noteq> []
        then raise (DNSConfigError (''PTR zone configuration error: '' @ stderr))
        else
          bnd (execute_command E ''systemctl restart named'') (\<lambda>_.
          ret ())))))))))
       (\<lambda>e. raise (DNSConfigError (''PTR zone configuration failed: '' @ str_exn e)))"

subsection \<open>\<open>delete_zone\<close>: the pattern and \<open>re.sub\<close>\<close>

text \<open>
  The pattern is \<open>zone "<zone_name>" IN {[^}]+};\<close> with the zone name pasted in as it
  is, so the name is read as a regular expression. In a name made of ordinary
  characters and dots, every ordinary character stands for itself and a dot stands for
  any character but a newline. Names holding another operator of the pattern language
  (one of \<open>\ ^ $ * + ? { } [ ] | ( )\<close>) are left to \<open>re_other\<close>.
\<close>

datatype atom = Lit char | AnyChar

definition specials :: "char list" where
  "specials = [CHR 0x5C] @ ''^$*+?{}[]|()''"

fun name_atoms :: "string \<Rightarrow> atom list option" where
  "name_atoms [] = Some []"
| "name_atoms (c # cs) =
     (if c = CHR ''.'' then map_option (Cons AnyChar) (name_atoms cs)
      else if c \<in> set specials then None
      else map_option (Cons (Lit c)) (name_atoms cs))"

definition zone_pattern :: "atom list \<Rightarrow> atom list" where
  \<open>zone_pattern name = map Lit ''zone "'' @ name @ map Lit ''" IN {''\<close>

text \<open>\<open>match_atoms p s\<close> is the text after a match of \<open>p\<close> at the start of \<open>s\<close>.\<close>

fun match_atoms :: "atom list \<Rightarrow> string \<Rightarrow> string option" where
  "match_atoms [] s = Some s"
| "match_atoms (a # as) [] = None"
| "match_atoms (Lit c # as) (x # xs) = (if x = c then match_atoms as xs else None)"
| "match_atoms (AnyChar # as) (x # xs) =
     (if x \<noteq> CHR ''\<newline>'' then match_atoms as xs else None)"

text \<open>
  After the opening brace, \<open>[^}]+\<close> takes every character up to the next closing brace
  (at least one), and \<open>};\<close> must follow. Giving back characters cannot help: the
  character then facing \<open>}\<close> would be one that \<open>[^}]\<close> accepted.
\<close>

definition match_stanza :: "atom list \<Rightarrow> string \<Rightarrow> string option" where
  "match_stanza name s =
     (case match_atoms (zone_pattern name) s of
        None \<Rightarrow> None
      | Some r \<Rightarrow>
          if takeWhile (\<lambda>c. c \<noteq> CHR ''}'') r = [] then None
          else
            (case dropWhile (\<lambda>c. c \<noteq> CHR ''}'') r of
               c1 # c2 # rest \<Rightarrow> if c2 = CHR '';'' then Some rest else None
             | _ \<Rightarrow> None))"

lemma match_atoms_length: "match_atoms p s = Some r \<Longrightarrow> length r \<le> length s"
  by (induction p s rule: match_atoms.induct) (auto split: if_splits)

lemma match_stanza_length: "match_stanza name s = Some r \<Longrightarrow> length r < length s"
proof -
  assume m: "match_stanza name s = Some r"
  then obtain t where t: "match_atoms (zone_pattern name) s = Some t"
    by (auto simp: match_stanza_def split: option.splits)
  from m t obtain c1 c2 where "dropWhile (\<lambda>c. c \<noteq> CHR ''}'') t = c1 # c2 # r"
    by (auto simp: match_stanza_def split: if_splits list.splits)
  then have "length (dropWhile (\<lambda>c. c \<noteq> CHR ''}'') t) = Suc (Suc (length r))"
    by simp
  moreover have "length (dropWhile (\<lambda>c. c \<noteq> CHR ''}'') t) \<le> length t"
    by (rule length_dropWhile_le)
  moreover have "length t \<le> length s"
    using t by (rule match_atoms_length)
  ultimately show ?thesis by simp
qed

text \<open>
  \<open>re.sub(pattern, '', text)\<close> on text: the text is scanned from the left; a match is
  cut out and the scan goes on behind it, any other character is kept.
\<close>

function sub_stanzas :: "atom list \<Rightarrow> string \<Rightarrow> string" where
  "sub_stanzas name [] = []"
| "sub_stanzas name (c # cs) =
     (case match_stanza name (c # cs) of
        Some rest \<Rightarrow> sub_stanzas name rest
      | None \<Rightarrow> c # sub_stanzas name cs)"
  by pat_completeness auto
termination
  by (relation "measure (\<lambda>(name, s). length s)") (auto dest: match_stanza_length)

text \<open>
  \<open>re.sub(zone_pattern, '', conf_content)\<close>: the pattern is text, so it is compiled
  and then applied; applied to bytes it raises \<open>TypeError\<close>.
\<close>

definition re_sub_zone :: "env \<Rightarrow> string \<Rightarrow> pytext \<Rightarrow> exn + string" where
  "re_sub_zone E zone_name conf_content =
     (case name_atoms zone_name of
        Some name \<Rightarrow>
          (case conf_content of
             Bytes b \<Rightarrow>
               Inl (TypeError ''cannot use a string pattern on a bytes-like object'')
           | Str t \<Rightarrow> Inr (sub_stanzas name t))
      | None \<Rightarrow> re_other E zone_name conf_content)"

definition delete_zone :: "env \<Rightarrow> string \<Rightarrow> unit op" where
  "delete_zone E zone_name =
     catch
       (bnd (execute_command E (''rm -f '' @ zone_file_path zone_name)) (\<lambda>_.
        bnd (sftp_read E named_conf) (\<lambda>conf_content.
        bnd (lift (re_sub_zone E zone_name conf_content)) (\<lambda>new_content.
        bnd (sftp_write E named_conf new_content) (\<lambda>_.
        bnd (execute_command E ''systemctl restart named'') (\<lambda>_.
        ret ()))))))
       (\<lambda>e. raise (DNSConfigError (''Zone deletion failed: '' @ str_exn e)))"

section \<open>The dnsmasq configurator (\<open>DnsmasqServer\<close>)\<close>

definition config_path :: string where
  "config_path = ''/etc/dnsmasq.conf''"

definition dnsmasq_install :: "env \<Rightarrow> unit op" where
  "dnsmasq_install E =
     bnd (execute_command E ''rpm -q dnsmasq'') (\<lambda>(stdout, _).
     if py_in ''dnsmasq-'' stdout then ret ()
     else
       catch
         (bnd (execute_command E ''yum -y install dnsmasq'') (\<lambda>_.
          bnd (execute_command E ''systemctl enable dnsmasq'') (\<lambda>_.
          bnd (execute_command E ''systemctl start dnsmasq'') (\<lambda>_.
          ret ()))))
         (\<lambda>e. raise (DNSConfigError (''Failed to install dnsmasq: '' @ str_exn e))))"

text \<open>\<open>sep.join(xs)\<close>\<close>

fun join :: "string \<Rightarrow> string list \<Rightarrow> string" where
  "join sep [] = []"
| "join sep [x] = x"
| "join sep (x # y # ys) = x @ sep @ join sep (y # ys)"

definition dnsmasq_conf_content :: "pydict \<Rightarrow> exn + string list" where
  "dnsmasq_conf_content config =
     (case getitem config ''upstream_dns'' of
        Inl e \<Rightarrow> Inl e
      | Inr upstream_dns \<Rightarrow>
          Inr [''server='' @ upstream_dns,
               ''cache-size='' @
                 (case config ''cache_size'' of None \<Rightarrow> str_int 0 | Some v \<Rightarrow> v)])"

text \<open>
  The source text of \<open>DnsmasqServer.configure\<close> ends after the restart of the service,
  inside its \<open>try\<close> block. The definition covers the statements that are there, in
  their order; an exception ends this part as it is.
\<close>

definition dnsmasq_configure :: "env \<Rightarrow> pydict \<Rightarrow> unit op" where
  "dnsmasq_configure E config =
     bnd (dnsmasq_install E) (\<lambda>_.
     bnd (execute_command E ''cp /etc/dnsmasq.conf /etc/dnsmasq.conf.bak 2>/dev/null || true'') (\<lambda>_.
     bnd (lift (dnsmasq_conf_content config)) (\<lambda>conf_content.
     bnd (sftp_write E config_path (join ''\<newline>'' conf_content)) (\<lambda>_.
     bnd (execute_command E ''systemctl restart dnsmasq'') (\<lambda>_.
     ret ())))))"

section \<open>What a run does to the host\<close>

text \<open>The events that a run of \<open>m\<close> from the world \<open>w\<close> adds to the trace.\<close>

definition events_of :: "'a op \<Rightarrow> world \<Rightarrow> event list" where
  "events_of m w = drop (length (trace w)) (trace (snd (m w)))"

text \<open>The files written in mode \<open>'w'\<close>, with their text, and the commands run.\<close>

fun puts :: "event list \<Rightarrow> (string \<times> string) list" where
  "puts [] = []"
| "puts (Put p c # t) = (p, c) # puts t"
| "puts (Exec c r # t) = puts t"
| "puts (Append p c # t) = puts t"

fun cmds :: "event list \<Rightarrow> string list" where
  "cmds [] = []"
| "cmds (Exec c r # t) = c # cmds t"
| "cmds (Put p c # t) = cmds t"
| "cmds (Append p c # t) = cmds t"

text \<open>\<open>emits P m\<close>: a run of \<open>m\<close> only adds events, and each of them satisfies \<open>P\<close>.\<close>

definition emits :: "(event \<Rightarrow> bool) \<Rightarrow> 'a op \<Rightarrow> bool" where
  "emits P m = (\<forall>w. \<exists>t. trace (snd (m w)) = trace w @ t \<and> list_all P t)"

text \<open>\<open>keeps p m\<close>: a run of \<open>m\<close> leaves the text of the file \<open>p\<close> as it was.\<close>

definition keeps :: "string \<Rightarrow> 'a op \<Rightarrow> bool" where
  "keeps p m = (\<forall>w. files (snd (m w)) p = files w p)"

text \<open>
  A run is aborted when it ends with the configuration error and has not issued the
  restart of the service.
\<close>

definition aborted :: "unit op \<Rightarrow> world \<Rightarrow> bool" where
  "aborted m w =
     ((\<exists>msg. fst (m w) = Inl (DNSConfigError msg)) \<and>
      (\<forall>r. Exec ''systemctl restart named'' r \<notin> set (events_of m w)))"

section \<open>The rendered lines, as the specification words them\<close>


text \<open>
  A CNAME value that contains a dot and lacks a trailing dot gains exactly one trailing
  dot; any other value is emitted unchanged.
\<close>

definition spec_dot_terminated :: "string \<Rightarrow> string" where
  "spec_dot_terminated v =
     (if CHR ''.'' \<in> set v \<and> last v \<noteq> CHR ''.'' then v @ ''.'' else v)"



text \<open>The last octet of an address: the text behind its last dot.\<close>

definition spec_last_octet :: "string \<Rightarrow> string" where
  "spec_last_octet a = rev (takeWhile (\<lambda>c. c \<noteq> CHR ''.'') (rev a))"

definition spec_ptr_line :: "pydict \<Rightarrow> string" where
  "spec_ptr_line r =
     spec_last_octet (the (r ''ip'')) @ ''    IN    PTR    '' @ the (r ''hostname'')
       @ ''\<newline>''"

section \<open>Concrete hosts\<close>

text \<open>
  \<open>host_ok\<close>: BIND and dnsmasq are installed, the checkers print nothing, the service
  is active. The other hosts differ from it in one answer each.
\<close>

definition answer_ok :: "string \<Rightarrow> string \<times> string" where
  "answer_ok c =
     (if c = ''rpm -q bind'' then (''bind-9.11.4-26.P2.el7.x86_64'', [])
      else if c = ''rpm -q dnsmasq'' then (''dnsmasq-2.76-17.el7.x86_64'', [])
      else if c = ''systemctl is-active named'' then (''active'', [])
      else ([], []))"

definition host_ok :: env where
  "host_ok =
     \<lparr>shell = (\<lambda>w c. (Inr (answer_ok c), files w)),
      sftp_error = (\<lambda>w p. None),
      clock = (\<lambda>w. 1700000000),
      connect_error = (\<lambda>w c. None),
      re_other = (\<lambda>n t. Inl (RemoteError ''pattern outside the model''))\<rparr>"

text \<open>\<open>named-checkconf\<close> reports a syntax error on stderr.\<close>

definition host_conf_error :: env where
  "host_conf_error =
     host_ok\<lparr>shell := (\<lambda>w c.
       (if c = ''named-checkconf''
        then Inr ([], ''/etc/named.conf:30: missing ;'')
        else Inr (answer_ok c), files w))\<rparr>"

text \<open>\<open>named-checkzone\<close> reports its error on stderr.\<close>

definition host_zone_error :: env where
  "host_zone_error =
     host_ok\<lparr>shell := (\<lambda>w c.
       (if c = ''named-checkzone example.com /var/named/db.example.com''
        then Inr ([], ''zone example.com/IN: not loaded due to errors.'')
        else Inr (answer_ok c), files w))\<rparr>"

text \<open>\<open>named-checkzone\<close> reports its error on stdout and leaves stderr empty.\<close>

definition host_zone_stdout :: env where
  "host_zone_stdout =
     host_ok\<lparr>shell := (\<lambda>w c.
       (if c = ''named-checkzone example.com /var/named/db.example.com''
        then Inr (''zone example.com/IN: not loaded due to errors.'', [])
        else Inr (answer_ok c), files w))\<rparr>"

text \<open>The session is gone: every command raises.\<close>

definition host_down :: env where
  "host_down = host_ok\<lparr>shell := (\<lambda>w c. (Inl ''SSH session not active'', files w))\<rparr>"

text \<open>The service ends up inactive, and \<open>systemctl is-active\<close> says so.\<close>

definition host_inactive :: env where
  "host_inactive =
     host_ok\<lparr>shell := (\<lambda>w c.
       (if c = ''systemctl is-active named'' then Inr (''inactive'', [])
        else Inr (answer_ok c), files w))\<rparr>"

definition world0 :: world where
  "world0 = \<lparr>files = Map.empty, trace = []\<rparr>"

text \<open>
  A main configuration with two simple stanzas that do not overlap, for the zones
  \<open>lab-example.com\<close> and \<open>lab.example.com\<close>.
\<close>

definition two_zones :: string where
  \<open>two_zones =
     ''zone "lab-example.com" IN { type master; file "db.lab-example.com"; };\<newline>'' @
     ''zone "lab.example.com" IN { type master; file "db.lab.example.com"; };\<newline>''\<close>

definition world_two_zones :: world where
  "world_two_zones = \<lparr>files = [named_conf \<mapsto> two_zones], trace = []\<rparr>"

text \<open>A zone with one A record for the apex and one CNAME record.\<close>

definition zone_example :: zone_config where
  "zone_example =
     \<lparr>ztype = Some ''master'',
      records =
        Some [[''name'' \<mapsto> ''@'', ''type'' \<mapsto> ''A'', ''value'' \<mapsto> ''192.168.1.10''],
              [''name'' \<mapsto> ''www'', ''type'' \<mapsto> ''CNAME'',
               ''value'' \<mapsto> ''web.example.com'']]\<rparr>"


definition ptr_example :: zone_config where
  "ptr_example =
     \<lparr>ztype = None,
      records = Some [[''ip'' \<mapsto> ''192.168.1.50'', ''hostname'' \<mapsto> ''host1.example.com.''],
                      [''ip'' \<mapsto> ''192.168.1.7'', ''hostname'' \<mapsto> ''host2.example.com.'']]\<rparr>"

section \<open>Laws of the operations\<close>

lemma bnd_assoc: "bnd (bnd m f) g = bnd m (\<lambda>x. bnd (f x) g)"
  by (rule ext) (simp add: bnd_def split: prod.splits sum.splits)

lemma bnd_time: "bnd (time_time E) f w = f (clock E w) w"
  by (simp add: bnd_def time_time_def)

lemma split_guard:
  "bnd m (\<lambda>(a, b). if c b then raise (e b) else rest) =
   bnd (bnd m (\<lambda>(a, b). if c b then raise (e b) else ret ())) (\<lambda>_. rest)"
  by (rule ext) (auto simp: bnd_def raise_def ret_def split: prod.splits sum.splits)

lemma fst_catch_raise:
  "fst (m w) = Inl e \<Longrightarrow>
     fst (catch m (\<lambda>e. raise (DNSConfigError (h e))) w) = Inl (DNSConfigError (h e))"
  by (cases "m w") (simp add: catch_def raise_def)

lemma fst_catch_ok:
  "fst (catch m (\<lambda>e. raise (h e)) w) = Inr x \<longleftrightarrow> fst (m w) = Inr x"
  by (cases "m w") (auto simp: catch_def raise_def split: sum.splits)

lemma snd_catch_raise: "snd (catch m (\<lambda>e. raise (h e)) w) = snd (m w)"
  by (cases "m w") (auto simp: catch_def raise_def split: sum.splits)

subsection \<open>Events\<close>

lemma emitsD:
  assumes "emits P m"
  shows "trace (snd (m w)) = trace w @ events_of m w" and "list_all P (events_of m w)"
proof -
  from assms obtain t where t: "trace (snd (m w)) = trace w @ t" "list_all P t"
    unfolding emits_def by blast
  then have "events_of m w = t" by (simp add: events_of_def)
  with t show "trace (snd (m w)) = trace w @ events_of m w" and "list_all P (events_of m w)"
    by simp_all
qed

lemma emits_weaken: "emits P m \<Longrightarrow> (\<And>e. P e \<Longrightarrow> Q e) \<Longrightarrow> emits Q m"
  unfolding emits_def by (metis list.pred_mono_strong)

lemma emits_ret: "emits P (ret x)"
  by (simp add: emits_def ret_def)

lemma emits_raise: "emits P (raise e)"
  by (simp add: emits_def raise_def)

lemma emits_lift: "emits P (lift r)"
  by (simp add: emits_def lift_def)

lemma emits_time: "emits P (time_time E)"
  by (simp add: emits_def time_time_def)

lemma emits_bnd:
  assumes m: "emits P m" and f: "\<And>x. emits P (f x)"
  shows "emits P (bnd m f)"
  unfolding emits_def
proof
  fix w
  obtain r w1 where mw: "m w = (r, w1)" by (cases "m w")
  from m obtain t1 where t1: "trace (snd (m w)) = trace w @ t1" "list_all P t1"
    unfolding emits_def by blast
  show "\<exists>t. trace (snd (bnd m f w)) = trace w @ t \<and> list_all P t"
  proof (cases r)
    case (Inl e)
    with mw t1 show ?thesis by (auto simp: bnd_def)
  next
    case (Inr x)
    from f[of x] obtain t2 where "trace (snd (f x w1)) = trace w1 @ t2" "list_all P t2"
      unfolding emits_def by blast
    with Inr mw t1 show ?thesis by (auto simp: bnd_def)
  qed
qed

text \<open>After \<open>lift r\<close> only the value that \<open>r\<close> holds goes on.\<close>

lemma emits_bnd_lift:
  assumes "\<And>x. r = Inr x \<Longrightarrow> emits P (f x)"
  shows "emits P (bnd (lift r) f)"
proof (cases r)
  case (Inl e)
  then show ?thesis by (simp add: emits_def bnd_def lift_def)
next
  case (Inr x)
  with assms[of x] show ?thesis by (simp add: emits_def bnd_def lift_def)
qed

lemma emits_catch:
  assumes m: "emits P m" and h: "\<And>e. emits P (h e)"
  shows "emits P (catch m h)"
  unfolding emits_def
proof
  fix w
  obtain r w1 where mw: "m w = (r, w1)" by (cases "m w")
  from m obtain t1 where t1: "trace (snd (m w)) = trace w @ t1" "list_all P t1"
    unfolding emits_def by blast
  show "\<exists>t. trace (snd (catch m h w)) = trace w @ t \<and> list_all P t"
  proof (cases r)
    case (Inr x)
    with mw t1 show ?thesis by (auto simp: catch_def)
  next
    case (Inl e)
    from h[of e] obtain t2 where "trace (snd (h e w1)) = trace w1 @ t2" "list_all P t2"
      unfolding emits_def by blast
    with Inl mw t1 show ?thesis by (auto simp: catch_def)
  qed
qed

lemma emits_exec: "(\<And>r. P (Exec c r)) \<Longrightarrow> emits P (execute_command E c)"
  by (auto simp: emits_def execute_command_def split: prod.splits)

lemma emits_run_commands:
  "(\<And>c r. c \<in> set cs \<Longrightarrow> P (Exec c r)) \<Longrightarrow> emits P (run_commands E cs)"
  by (induction cs) (auto intro!: emits_ret emits_bnd emits_exec)

lemma emits_write: "P (Put p c) \<Longrightarrow> emits P (sftp_write E p c)"
  by (auto simp: emits_def sftp_write_def split: option.splits)

lemma emits_append: "P (Append p c) \<Longrightarrow> emits P (sftp_append E p c)"
  by (auto simp: emits_def sftp_append_def split: option.splits)

lemma emits_read: "emits P (sftp_read E p)"
  by (auto simp: emits_def sftp_read_def split: option.splits)

lemma emits_if:
  "(c \<Longrightarrow> emits P a) \<Longrightarrow> (\<not> c \<Longrightarrow> emits P b) \<Longrightarrow> emits P (if c then a else b)"
  by simp

lemma emits_prod: "(\<And>a b. emits P (f a b)) \<Longrightarrow> emits P (case x of (a, b) \<Rightarrow> f a b)"
  by (cases x) simp

lemmas emits_intros =
  emits_ret emits_raise emits_lift emits_time emits_bnd emits_catch emits_exec
  emits_run_commands emits_write emits_append emits_read emits_if emits_prod

lemma events_bnd:
  assumes m: "emits P m" and f: "\<And>x. emits Q (f x)"
  shows "events_of (bnd m f) w =
           (case m w of (Inl e, w1) \<Rightarrow> events_of m w
            | (Inr x, w1) \<Rightarrow> events_of m w @ events_of (f x) w1)"
proof -
  obtain r w1 where mw: "m w = (r, w1)" by (cases "m w")
  from m obtain t1 where t1: "trace (snd (m w)) = trace w @ t1"
    unfolding emits_def by blast
  show ?thesis
  proof (cases r)
    case (Inl e)
    with mw show ?thesis by (simp add: bnd_def events_of_def)
  next
    case (Inr x)
    from f[of x] obtain t2 where t2: "trace (snd (f x w1)) = trace w1 @ t2"
      unfolding emits_def by blast
    from Inr mw t1 t2 show ?thesis by (simp add: bnd_def events_of_def)
  qed
qed

lemma events_catch_raise: "events_of (catch m (\<lambda>e. raise (h e))) w = events_of m w"
  by (simp add: events_of_def catch_def raise_def split: prod.splits sum.splits)

lemma events_exec: "events_of (execute_command E c) w = [Exec c (fst (shell E w c))]"
  by (simp add: events_of_def execute_command_def split: prod.splits)

lemma named_install_emits:
  "(\<And>c r. c \<in> {''rpm -q bind'', ''yum -y install bind bind-utils'',
               ''systemctl enable named'', ''systemctl start named''} \<Longrightarrow> P (Exec c r))
   \<Longrightarrow> emits P (named_install E)"
  unfolding named_install_def by (intro emits_intros) auto

lemma dnsmasq_install_emits:
  "(\<And>c r. c \<in> {''rpm -q dnsmasq'', ''yum -y install dnsmasq'',
               ''systemctl enable dnsmasq'', ''systemctl start dnsmasq''} \<Longrightarrow> P (Exec c r))
   \<Longrightarrow> emits P (dnsmasq_install E)"
  unfolding dnsmasq_install_def by (intro emits_intros) auto

subsection \<open>A check that guards the rest of an operation\<close>

text \<open>
  The shape shared by the checks: a part \<open>pre\<close> that runs neither the checker \<open>chk\<close>
  nor the command \<open>rst\<close>, then the checker, then \<open>K\<close>, which raises when the checker's
  stderr is \<open>bad\<close> and otherwise does not run the checker again. If the trace of a run
  shows the checker with a bad stderr, the run ended in the error that \<open>K\<close> raises and
  never ran \<open>rst\<close>.
\<close>

lemma guarded_check:
  assumes pre: "emits (\<lambda>e. \<forall>r. e \<noteq> Exec chk r \<and> e \<noteq> Exec rst r) pre"
    and bad: "\<And>x out err. bad err \<Longrightarrow> K x (out, err) = raise (DNSConfigError (msg err))"
    and good: "\<And>x out err. \<not> bad err \<Longrightarrow> emits (\<lambda>e. \<forall>r. e \<noteq> Exec chk r) (K x (out, err))"
    and ne: "chk \<noteq> rst"
    and hit: "Exec chk (Inr (out, err))
                \<in> set (events_of (bnd pre (\<lambda>x. bnd (execute_command E chk) (K x))) w)"
    and err: "bad err"
  shows "fst (bnd pre (\<lambda>x. bnd (execute_command E chk) (K x)) w) = Inl (DNSConfigError (msg err))
    \<and> (\<forall>r. Exec rst r \<notin> set (events_of (bnd pre (\<lambda>x. bnd (execute_command E chk) (K x))) w))"
proof -
  let ?m = "bnd pre (\<lambda>x. bnd (execute_command E chk) (K x))"
  have K_emits: "emits (\<lambda>e. True) (K x p)" for x p
  proof (cases p)
    case (Pair a b)
    show ?thesis
    proof (cases "bad b")
      case True
      with Pair bad show ?thesis by (simp add: emits_raise)
    next
      case False
      with Pair good[of b x a] show ?thesis by (auto intro: emits_weaken)
    qed
  qed
  have chk_emits: "emits (\<lambda>e. True) (bnd (execute_command E chk) (K x))" for x
    by (intro emits_bnd emits_exec K_emits) simp
  have ev: "events_of ?m w =
      (case pre w of (Inl e, w1) \<Rightarrow> events_of pre w
       | (Inr x, w1) \<Rightarrow> events_of pre w @ events_of (bnd (execute_command E chk) (K x)) w1)"
    by (rule events_bnd[OF pre chk_emits])
  have pre_ev: "list_all (\<lambda>e. \<forall>r. e \<noteq> Exec chk r \<and> e \<noteq> Exec rst r) (events_of pre w)"
    by (rule emitsD(2)[OF pre])
  then have pre_no: "Exec chk r \<notin> set (events_of pre w)" "Exec rst r \<notin> set (events_of pre w)"
    for r
    by (auto simp: list_all_iff)
  obtain r0 w1 where pw: "pre w = (r0, w1)" by (cases "pre w")
  show ?thesis
  proof (cases r0)
    case (Inl e)
    with pw ev hit pre_no show ?thesis by auto
  next
    case (Inr x)
    have ev2: "events_of (bnd (execute_command E chk) (K x)) w1 =
      (case execute_command E chk w1 of (Inl e, w2) \<Rightarrow> events_of (execute_command E chk) w1
       | (Inr p, w2) \<Rightarrow> events_of (execute_command E chk) w1 @ events_of (K x p) w2)"
      by (rule events_bnd[OF emits_exec K_emits]) simp
    obtain rr fs where sh: "shell E w1 chk = (rr, fs)" by (cases "shell E w1 chk")
    let ?w2 = "\<lparr>files = fs, trace = trace w1 @ [Exec chk rr]\<rparr>"
    show ?thesis
    proof (cases rr)
      case (Inl m')
      with sh have "execute_command E chk w1 = (Inl (RemoteError m'), ?w2)"
        by (simp add: execute_command_def)
      with ev ev2 pw Inr sh Inl hit pre_no
      show ?thesis
        by (auto simp: events_exec)
    next
      case (Inr p)
      obtain o1 e1 where p: "p = (o1, e1)" by (cases p)
      from sh Inr p have ex: "execute_command E chk w1 = (Inr (o1, e1), ?w2)"
        by (simp add: execute_command_def)
      show ?thesis
      proof (cases "bad e1")
        case True
        have evK: "events_of (K x (o1, e1)) ?w2 = []"
          using bad[OF True, of x o1] by (simp add: events_of_def raise_def)
        from ev ev2 pw \<open>r0 = Inr x\<close> ex sh Inr p evK hit pre_no
        have "err = e1" by (auto simp: events_exec)
        with ev ev2 pw \<open>r0 = Inr x\<close> ex sh Inr p evK pre_no ne bad[OF True, of x o1]
        show ?thesis
          by (auto simp: events_exec bnd_def raise_def)
      next
        case False
        have "list_all (\<lambda>e. \<forall>r. e \<noteq> Exec chk r) (events_of (K x (o1, e1)) ?w2)"
          by (rule emitsD(2)[OF good[OF False]])
        then have "Exec chk r \<notin> set (events_of (K x (o1, e1)) ?w2)" for r
          by (auto simp: list_all_iff)
        with ev ev2 pw \<open>r0 = Inr x\<close> ex sh Inr p hit pre_no
        have "err = e1" by (auto simp: events_exec)
        with err False show ?thesis by simp
      qed
    qed
  qed
qed

lemma configure_check_aborts:
  assumes hit: "Exec ''named-checkconf'' (Inr (out, err))
                  \<in> set (events_of (named_configure E config) w)"
    and err: "err \<noteq> []"
  shows "aborted (named_configure E config) w"
proof -
  define pre where "pre =
    bnd (named_install E) (\<lambda>_.
    bnd (execute_command E ''cp /etc/named.conf /etc/named.conf.bak 2>/dev/null || true'') (\<lambda>_.
    bnd (lift (getitem config ''forwarder'')) (\<lambda>forwarder.
    sftp_write E named_conf (named_conf_content forwarder))))"
  define K :: "unit \<Rightarrow> string \<times> string \<Rightarrow> unit op" where "K = (\<lambda>_ (_, stderr).
        if stderr \<noteq> [] then raise (DNSConfigError (''named.conf syntax error: '' @ stderr))
        else
          bnd (run_commands E
                [''chown root:named /etc/named.conf'',
                 ''restorecon -v /etc/named.conf'',
                 ''chmod 640 /etc/named.conf'']) (\<lambda>_.
          bnd (execute_command E ''systemctl restart named'') (\<lambda>_.
          bnd (execute_command E ''systemctl is-active named'') (\<lambda>(stdout, _).
          if \<not> py_in ''active'' stdout
          then raise (DNSConfigError ''named failed to start after configuration'')
          else ret ()))))"
  let ?body = "bnd pre (\<lambda>x. bnd (execute_command E ''named-checkconf'') (K x))"
  let ?h = "\<lambda>e. ''Failed to configure BIND: '' @ str_exn e"
  have shape: "named_configure E config = catch ?body (\<lambda>e. raise (DNSConfigError (?h e)))"
    unfolding named_configure_def pre_def K_def by (simp add: bnd_assoc)
  have pre: "emits (\<lambda>e. \<forall>r. e \<noteq> Exec ''named-checkconf'' r
                          \<and> e \<noteq> Exec ''systemctl restart named'' r) pre"
    unfolding pre_def by (intro emits_intros named_install_emits) auto
  have bad: "\<And>x out err. err \<noteq> [] \<Longrightarrow>
      K x (out, err) = raise (DNSConfigError (''named.conf syntax error: '' @ err))"
    by (simp add: K_def)
  have good: "\<And>x out err. \<not> err \<noteq> [] \<Longrightarrow>
      emits (\<lambda>e. \<forall>r. e \<noteq> Exec ''named-checkconf'' r) (K x (out, err))"
    unfolding K_def by (simp, intro emits_intros) auto
  from hit have hit': "Exec ''named-checkconf'' (Inr (out, err)) \<in> set (events_of ?body w)"
    by (simp add: shape events_catch_raise)
  have g: "fst (?body w) = Inl (DNSConfigError (''named.conf syntax error: '' @ err))
    \<and> (\<forall>r. Exec ''systemctl restart named'' r \<notin> set (events_of ?body w))"
    by (rule guarded_check[where bad="\<lambda>e. e \<noteq> []", OF pre bad good _ hit' err]) simp_all
  then show ?thesis
    unfolding aborted_def shape events_catch_raise
    using fst_catch_raise[of ?body w _ ?h] by auto
qed

lemma add_zone_conf_check_aborts:
  assumes hit: "Exec ''named-checkconf'' (Inr (out, err))
                  \<in> set (events_of (add_zone E zn zc) w)"
    and err: "err \<noteq> []"
  shows "aborted (add_zone E zn zc) w"
proof -
  define pre where "pre =
        bnd (time_time E) (\<lambda>now.
        bnd (lift (render_zone zn now zc)) (\<lambda>zone_content.
        bnd (sftp_write E (zone_file_path zn) zone_content) (\<lambda>_.
        bnd (run_commands E
              [''chown root:named '' @ zone_file_path zn,
               ''chmod 640 '' @ zone_file_path zn,
               ''restorecon -v '' @ zone_file_path zn]) (\<lambda>_.
        sftp_append E named_conf (zone_conf zn zc)))))"
  define K :: "unit \<Rightarrow> string \<times> string \<Rightarrow> unit op" where "K = (\<lambda>_ (_, stderr).
        if stderr \<noteq> [] then raise (DNSConfigError (''Zone configuration error: '' @ stderr))
        else
          bnd (execute_command E
                (''named-checkzone '' @ zn @ '' '' @ zone_file_path zn))
            (\<lambda>(_, stderr).
          if stderr \<noteq> [] \<and> \<not> py_in ''OK'' stderr
          then raise (DNSConfigError (''Zone file syntax error: '' @ stderr))
          else
            bnd (execute_command E ''systemctl restart named'') (\<lambda>_.
            ret ())))"
  let ?body = "bnd pre (\<lambda>x. bnd (execute_command E ''named-checkconf'') (K x))"
  let ?h = "\<lambda>e. ''Zone configuration failed: '' @ str_exn e"
  have shape: "add_zone E zn zc = catch ?body (\<lambda>e. raise (DNSConfigError (?h e)))"
    unfolding add_zone_def pre_def K_def by (simp add: bnd_assoc)
  have pre: "emits (\<lambda>e. \<forall>r. e \<noteq> Exec ''named-checkconf'' r
                          \<and> e \<noteq> Exec ''systemctl restart named'' r) pre"
    unfolding pre_def by (intro emits_intros) auto
  have bad: "\<And>x out err. err \<noteq> [] \<Longrightarrow>
      K x (out, err) = raise (DNSConfigError (''Zone configuration error: '' @ err))"
    by (simp add: K_def)
  have good: "\<And>x out err. \<not> err \<noteq> [] \<Longrightarrow>
      emits (\<lambda>e. \<forall>r. e \<noteq> Exec ''named-checkconf'' r) (K x (out, err))"
    unfolding K_def by (simp, intro emits_intros) auto
  from hit have hit': "Exec ''named-checkconf'' (Inr (out, err)) \<in> set (events_of ?body w)"
    by (simp add: shape events_catch_raise)
  have g: "fst (?body w) = Inl (DNSConfigError (''Zone configuration error: '' @ err))
    \<and> (\<forall>r. Exec ''systemctl restart named'' r \<notin> set (events_of ?body w))"
    by (rule guarded_check[where bad="\<lambda>e. e \<noteq> []", OF pre bad good _ hit' err]) simp_all
  then show ?thesis
    unfolding aborted_def shape events_catch_raise
    using fst_catch_raise[of ?body w _ ?h] by auto
qed

lemma add_zone_file_check_aborts:
  assumes hit: "Exec (''named-checkzone '' @ zn @ '' '' @ zone_file_path zn) (Inr (out, err))
                  \<in> set (events_of (add_zone E zn zc) w)"
    and err: "err \<noteq> [] \<and> \<not> py_in ''OK'' err"
  shows "aborted (add_zone E zn zc) w"
proof -
  let ?chk = "''named-checkzone '' @ zn @ '' '' @ zone_file_path zn"
  define pre0 where "pre0 =
        bnd (time_time E) (\<lambda>now.
        bnd (lift (render_zone zn now zc)) (\<lambda>zone_content.
        bnd (sftp_write E (zone_file_path zn) zone_content) (\<lambda>_.
        bnd (run_commands E
              [''chown root:named '' @ zone_file_path zn,
               ''chmod 640 '' @ zone_file_path zn,
               ''restorecon -v '' @ zone_file_path zn]) (\<lambda>_.
        sftp_append E named_conf (zone_conf zn zc)))))"
  define G :: "string \<times> string \<Rightarrow> unit op" where "G = (\<lambda>(_, stderr).
        if stderr \<noteq> [] then raise (DNSConfigError (''Zone configuration error: '' @ stderr))
        else ret ())"
  define pre where "pre = bnd pre0 (\<lambda>_. bnd (execute_command E ''named-checkconf'') G)"
  define K :: "string \<times> string \<Rightarrow> unit op" where "K = (\<lambda>(_, stderr).
          if stderr \<noteq> [] \<and> \<not> py_in ''OK'' stderr
          then raise (DNSConfigError (''Zone file syntax error: '' @ stderr))
          else
            bnd (execute_command E ''systemctl restart named'') (\<lambda>_.
            ret ()))"
  define rest where "rest = bnd (execute_command E ?chk) K"
  let ?body = "bnd pre (\<lambda>x. bnd (execute_command E ?chk) K)"
  let ?h = "\<lambda>e. ''Zone configuration failed: '' @ str_exn e"
  have s1: "add_zone E zn zc =
      catch (bnd pre0 (\<lambda>_. bnd (execute_command E ''named-checkconf'') (\<lambda>(_, stderr).
        if stderr \<noteq> [] then raise (DNSConfigError (''Zone configuration error: '' @ stderr))
        else rest))) (\<lambda>e. raise (DNSConfigError (?h e)))"
    unfolding add_zone_def pre0_def rest_def K_def by (simp add: bnd_assoc)
  have "bnd pre (\<lambda>_. rest) =
      bnd pre0 (\<lambda>_. bnd (bnd (execute_command E ''named-checkconf'') G) (\<lambda>_. rest))"
    unfolding pre_def by (rule bnd_assoc)
  also have "\<dots> = bnd pre0 (\<lambda>_. bnd (execute_command E ''named-checkconf'') (\<lambda>(_, stderr).
        if stderr \<noteq> [] then raise (DNSConfigError (''Zone configuration error: '' @ stderr))
        else rest))"
    unfolding G_def by (simp only: split_guard[symmetric])
  finally have shape: "add_zone E zn zc = catch ?body (\<lambda>e. raise (DNSConfigError (?h e)))"
    unfolding s1 rest_def by simp
  have pre: "emits (\<lambda>e. \<forall>r. e \<noteq> Exec ?chk r \<and> e \<noteq> Exec ''systemctl restart named'' r) pre"
    unfolding pre_def pre0_def G_def by (intro emits_intros) auto
  have bad: "\<And>x out err. err \<noteq> [] \<and> \<not> py_in ''OK'' err \<Longrightarrow>
      K (out, err) = raise (DNSConfigError (''Zone file syntax error: '' @ err))"
    by (simp add: K_def)
  have good: "\<And>x out err. \<not> (err \<noteq> [] \<and> \<not> py_in ''OK'' err) \<Longrightarrow>
      emits (\<lambda>e. \<forall>r. e \<noteq> Exec ?chk r) (K (out, err))"
    unfolding K_def by (simp only: split if_not_P, intro emits_intros) auto
  from hit have hit': "Exec ?chk (Inr (out, err)) \<in> set (events_of ?body w)"
    by (simp add: shape events_catch_raise)
  have g: "fst (?body w) = Inl (DNSConfigError (''Zone file syntax error: '' @ err))
    \<and> (\<forall>r. Exec ''systemctl restart named'' r \<notin> set (events_of ?body w))"
    by (rule guarded_check[where bad="\<lambda>e. e \<noteq> [] \<and> \<not> py_in ''OK'' e" and K="\<lambda>_. K",
          OF pre bad good _ hit' err]) simp_all
  then show ?thesis
    unfolding aborted_def shape events_catch_raise
    using fst_catch_raise[of ?body w _ ?h] by auto
qed

section \<open>Facts about the text operations and the rendering loops\<close>

lemma split_nonempty: "split sep s \<noteq> []"
  by (induction s) (auto split: list.splits)

lemma split_no_sep: "sep \<notin> set a \<Longrightarrow> split sep a = [a]"
  by (induction a) auto

lemma split_append: "sep \<notin> set a \<Longrightarrow> split sep (a @ sep # b) = a # split sep b"
proof (induction a)
  case Nil
  then show ?case using split_nonempty[of sep b] by (auto split: list.splits)
next
  case (Cons c a)
  then show ?case by auto
qed

lemma split_has_sep: "sep \<in> set s \<Longrightarrow> tl (split sep s) \<noteq> []"
  by (induction s) (auto simp: split_nonempty split: list.splits)

lemma split_Cons:
  "split sep (c # cs) =
     (if c = sep then [] # split sep cs
      else (c # hd (split sep cs)) # tl (split sep cs))"
  using split_nonempty[of sep cs] by (auto split: list.splits)

lemma takeWhile_snoc_stop: "\<not> P x \<Longrightarrow> takeWhile P (xs @ [x]) = takeWhile P xs"
  by (induction xs) auto

lemma last_split: "last (split sep s) = rev (takeWhile (\<lambda>c. c \<noteq> sep) (rev s))"
proof (induction s)
  case Nil
  show ?case by simp
next
  case (Cons c cs)
  show ?case
  proof (cases "c = sep")
    case True
    then show ?thesis using Cons
      by (simp add: split_Cons split_nonempty takeWhile_snoc_stop del: split.simps)
  next
    case False
    show ?thesis
    proof (cases "sep \<in> set cs")
      case True
      then have "tl (split sep cs) \<noteq> []" by (rule split_has_sep)
      moreover have "last (split sep cs) = last (tl (split sep cs))"
        using calculation by (cases "split sep cs") auto
      moreover have "takeWhile (\<lambda>c. c \<noteq> sep) (rev cs @ [c]) = takeWhile (\<lambda>c. c \<noteq> sep) (rev cs)"
        using True by (simp add: takeWhile_append1)
      ultimately show ?thesis using False Cons by (simp add: split_Cons del: split.simps)
    next
      case nosep: False
      then have "split sep cs = [cs]" by (rule split_no_sep)
      with False have lhs: "last (split sep (c # cs)) = c # cs" by simp
      have "takeWhile (\<lambda>c. c \<noteq> sep) (rev (c # cs)) = rev (c # cs)"
        using nosep False by (subst takeWhile_eq_all_conv) auto
      then have "rev (takeWhile (\<lambda>c. c \<noteq> sep) (rev (c # cs))) = c # cs"
        by (simp only: rev_rev_ident)
      with lhs show ?thesis by (simp only:)
    qed
  qed
qed

lemma py_in_char: "py_in [c] s \<longleftrightarrow> c \<in> set s"
  by (induction s) auto

lemma endswith_char: "endswith s [c] \<longleftrightarrow> s \<noteq> [] \<and> last s = c"
  by (cases s rule: rev_cases) (auto simp: endswith_def)

lemma cname_value_spec: "cname_value v = spec_dot_terminated v"
  by (auto simp: cname_value_def spec_dot_terminated_def py_in_char endswith_char)







lemma add_a_records_skip:
  "r ''type'' = Some t \<Longrightarrow> t \<noteq> ''A'' \<Longrightarrow>
     add_a_records (xs @ r # ys) acc = add_a_records (xs @ ys) acc"
  by (induction xs arbitrary: acc) (auto split: option.splits)

lemma add_cname_records_skip:
  "r ''type'' = Some t \<Longrightarrow> t \<noteq> ''CNAME'' \<Longrightarrow>
     add_cname_records (xs @ r # ys) acc = add_cname_records (xs @ ys) acc"
  by (induction xs arbitrary: acc) (auto split: option.splits)

lemma add_ptr_records_result:
  "\<forall>r\<in>set rs. r ''ip'' \<noteq> None \<and> r ''hostname'' \<noteq> None \<Longrightarrow>
     add_ptr_records rs acc = Inr (acc @ concat (map spec_ptr_line rs))"
  by (induction rs arbitrary: acc)
     (auto simp: spec_ptr_line_def spec_last_octet_def last_split)

lemma reverse_zone_quad:
  assumes "CHR ''.'' \<notin> set a" "CHR ''.'' \<notin> set b" "CHR ''.'' \<notin> set c"
  shows "reverse_zone (a @ ''.'' @ b @ ''.'' @ c @ ''.'' @ d) =
           Inr (c @ ''.'' @ b @ ''.'' @ a @ ''.in-addr.arpa'')"
proof -
  have "split CHR ''.'' (a @ ''.'' @ b @ ''.'' @ c @ ''.'' @ d) = a # b # c # split CHR ''.'' d"
    using assms by (simp add: split_append)
  then show ?thesis by (simp add: reverse_zone_def Let_def)
qed

section \<open>What the zone operations write\<close>

lemma events_cong: "m w = m' w \<Longrightarrow> events_of m w = events_of m' w"
  by (simp add: events_of_def)

lemma emits_member: "emits P m \<Longrightarrow> e \<in> set (events_of m w) \<Longrightarrow> P e"
  using emitsD(2)[of P m w] by (simp add: list_all_iff)


lemma add_ptr_records_form:
  "add_ptr_records rs acc = Inr c \<Longrightarrow> c = acc @ concat (map spec_ptr_line rs)"
proof (induction rs arbitrary: acc)
  case Nil
  then show ?case by simp
next
  case (Cons r rs)
  from Cons.prems obtain a h where ah: "r ''ip'' = Some a" "r ''hostname'' = Some h"
    and run: "add_ptr_records rs
                (acc @ last (split CHR ''.'' a) @ ''    IN    PTR    '' @ h @ ''\<newline>'') = Inr c"
    by (auto split: option.splits)
  from Cons.IH[OF run] ah show ?case
    by (simp add: spec_ptr_line_def spec_last_octet_def last_split)
qed

lemma add_ptr_zone_put:
  assumes "Put p c \<in> set (events_of (add_ptr_zone E network zc) w)"
  shows "\<exists>rz. reverse_zone network = Inr rz \<and> p = zone_file_path rz \<and>
           add_ptr_records (get_records zc) (ptr_header rz (clock E w)) = Inr c"
proof (cases "reverse_zone network")
  case (Inl e)
  then have "events_of (add_ptr_zone E network zc) w = []"
    by (simp add: add_ptr_zone_def events_of_def catch_def bnd_def lift_def raise_def)
  with assms show ?thesis by simp
next
  case (Inr rz)
  define F where "F = (\<lambda>zone_content.
        bnd (sftp_write E (zone_file_path rz) zone_content) (\<lambda>_.
        bnd (run_commands E
              [''chown root:named '' @ zone_file_path rz,
               ''chmod 640 '' @ zone_file_path rz,
               ''restorecon -v '' @ zone_file_path rz]) (\<lambda>_.
        bnd (sftp_append E named_conf (ptr_zone_conf rz)) (\<lambda>_.
        bnd (execute_command E ''named-checkconf'') (\<lambda>(_, stderr).
        if stderr \<noteq> []
        then raise (DNSConfigError (''PTR zone configuration error: '' @ stderr))
        else
          bnd (execute_command E ''systemctl restart named'') (\<lambda>_.
          ret ()))))))"
  define r where "r = add_ptr_records (get_records zc) (ptr_header rz (clock E w))"
  define m' :: "unit op" where "m' = catch (bnd (lift r) F)
       (\<lambda>e. raise (DNSConfigError (''PTR zone configuration failed: '' @ str_exn e)))"
  define P where "P = (\<lambda>e. \<forall>p c. e = Put p c \<longrightarrow> p = zone_file_path rz \<and> r = Inr c)"
  have "add_ptr_zone E network zc w = m' w"
    unfolding add_ptr_zone_def m'_def F_def r_def catch_def
    by (simp add: Inr bnd_time bnd_def[of "lift (Inr rz)"] lift_def[of "Inr rz"])
  then have ev: "events_of (add_ptr_zone E network zc) w = events_of m' w" by (rule events_cong)
  have "emits P m'"
    unfolding m'_def
  proof (rule emits_catch, rule emits_bnd_lift)
    fix x assume "r = Inr x"
    then show "emits P (F x)"
      unfolding F_def P_def by (intro emits_intros) auto
  qed (rule emits_raise)
  from emits_member[OF this] assms ev Inr show ?thesis
    unfolding P_def r_def by auto
qed

lemma dnsmasq_put:
  assumes "Put p c \<in> set (events_of (dnsmasq_configure E config) w)"
  shows "p = config_path \<and>
         (\<exists>conf_content. dnsmasq_conf_content config = Inr conf_content \<and>
            c = join ''\<newline>'' conf_content)"
proof -
  define P where "P = (\<lambda>e. \<forall>p c. e = Put p c \<longrightarrow> p = config_path \<and>
         (\<exists>conf_content. dnsmasq_conf_content config = Inr conf_content \<and>
            c = join ''\<newline>'' conf_content))"
  have tail: "emits P (bnd (sftp_write E config_path (join ''\<newline>'' x)) (\<lambda>_.
     bnd (execute_command E ''systemctl restart dnsmasq'') (\<lambda>_. ret ())))"
    if "dnsmasq_conf_content config = Inr x" for x
    using that unfolding P_def by (intro emits_intros) auto
  have "emits P (dnsmasq_configure E config)"
    unfolding dnsmasq_configure_def
    apply (rule emits_bnd)
     apply (rule dnsmasq_install_emits)
     apply (simp add: P_def)
    apply (rule emits_bnd)
     apply (rule emits_exec)
     apply (simp add: P_def)
    apply (rule emits_bnd_lift)
    apply (erule tail)
    done
  from emits_member[OF this assms] show ?thesis
    unfolding P_def by simp
qed

section \<open>A run of \<open>configure\<close> that ends normally\<close>

lemma puts_append: "puts (a @ b) = puts a @ puts b"
  by (induction a rule: puts.induct) auto

lemma cmds_append: "cmds (a @ b) = cmds a @ cmds b"
  by (induction a rule: cmds.induct) auto

lemma puts_none: "list_all (\<lambda>e. \<forall>p c. e \<noteq> Put p c) t \<Longrightarrow> puts t = []"
  by (induction t rule: puts.induct) auto

lemma keeps_ret: "keeps p (ret x)"
  by (simp add: keeps_def ret_def)

lemma keeps_raise: "keeps p (raise e)"
  by (simp add: keeps_def raise_def)

lemma keeps_bnd:
  assumes "keeps p m" and "\<And>x. keeps p (f x)"
  shows "keeps p (bnd m f)"
  unfolding keeps_def
proof
  fix w
  obtain r w1 where mw: "m w = (r, w1)" by (cases "m w")
  with assms(1) have w1: "files w1 p = files w p" by (auto simp: keeps_def dest: spec[of _ w])
  show "files (snd (bnd m f w)) p = files w p"
  proof (cases r)
    case (Inl e)
    with mw w1 show ?thesis by (simp add: bnd_def)
  next
    case (Inr x)
    from assms(2)[of x] have "files (snd (f x w1)) p = files w1 p" by (simp add: keeps_def)
    with Inr mw w1 show ?thesis by (simp add: bnd_def)
  qed
qed

lemma keeps_exec:
  assumes "\<forall>w c. snd (shell E w c) p = files w p"
  shows "keeps p (execute_command E c)"
  unfolding keeps_def
proof
  fix w
  from assms have "snd (shell E w c) p = files w p" by blast
  then show "files (snd (execute_command E c w)) p = files w p"
    by (cases "shell E w c") (simp add: execute_command_def)
qed

lemma keeps_run_commands:
  "\<forall>w c. snd (shell E w c) p = files w p \<Longrightarrow> keeps p (run_commands E cs)"
  by (induction cs) (auto intro!: keeps_ret keeps_bnd keeps_exec)

lemma keeps_if: "(c \<Longrightarrow> keeps p a) \<Longrightarrow> (\<not> c \<Longrightarrow> keeps p b) \<Longrightarrow> keeps p (if c then a else b)"
  by simp

lemma keeps_prod: "(\<And>a b. keeps p (f a b)) \<Longrightarrow> keeps p (case x of (a, b) \<Rightarrow> f a b)"
  by (cases x) simp

lemmas keeps_intros =
  keeps_ret keeps_raise keeps_bnd keeps_exec keeps_run_commands keeps_if keeps_prod

lemma configure_put:
  assumes "Put p c \<in> set (events_of (named_configure E config) w)"
  shows "p = named_conf \<and>
         (\<exists>forwarder. config ''forwarder'' = Some forwarder \<and> c = named_conf_content forwarder)"
proof -
  define P where "P = (\<lambda>e. \<forall>p c. e = Put p c \<longrightarrow> p = named_conf \<and>
         (\<exists>forwarder. config ''forwarder'' = Some forwarder \<and> c = named_conf_content forwarder))"
  have tail: "emits P
       (bnd (sftp_write E named_conf (named_conf_content x)) (\<lambda>_.
        bnd (execute_command E ''named-checkconf'') (\<lambda>(_, stderr).
        if stderr \<noteq> [] then raise (DNSConfigError (''named.conf syntax error: '' @ stderr))
        else
          bnd (run_commands E
                [''chown root:named /etc/named.conf'',
                 ''restorecon -v /etc/named.conf'',
                 ''chmod 640 /etc/named.conf'']) (\<lambda>_.
          bnd (execute_command E ''systemctl restart named'') (\<lambda>_.
          bnd (execute_command E ''systemctl is-active named'') (\<lambda>(stdout, _).
          if \<not> py_in ''active'' stdout
          then raise (DNSConfigError ''named failed to start after configuration'')
          else ret ()))))))"
    if "getitem config ''forwarder'' = Inr x" for x
    using that unfolding P_def
    by (intro emits_intros) (auto simp: getitem_def split: option.splits)
  have "emits P (named_configure E config)"
    unfolding named_configure_def
    apply (rule emits_catch)
     apply (rule emits_bnd)
      apply (rule named_install_emits)
      apply (simp add: P_def)
     apply (rule emits_bnd)
      apply (rule emits_exec)
      apply (simp add: P_def)
     apply (rule emits_bnd_lift)
     apply (erule tail)
    apply (rule emits_raise)
    done
  from emits_member[OF this assms] show ?thesis
    unfolding P_def by simp
qed

lemma bnd_ok:
  assumes "fst (bnd m f w) = Inr y"
  obtains x where "m w = (Inr x, snd (m w))" and "bnd m f w = f x (snd (m w))"
  using assms by (cases "m w") (auto simp: bnd_def split: sum.splits)

lemma configure_success:
  assumes ok: "fst (named_configure E config w) = Inr ()"
  shows "\<exists>forwarder. config ''forwarder'' = Some forwarder \<and>
           puts (events_of (named_configure E config) w) =
             [(named_conf, named_conf_content forwarder)] \<and>
           ''cp /etc/named.conf /etc/named.conf.bak 2>/dev/null || true''
             \<in> set (cmds (events_of (named_configure E config) w)) \<and>
           ((\<forall>w c. snd (shell E w c) named_conf = files w named_conf) \<longrightarrow>
              files (snd (named_configure E config w)) named_conf =
                Some (named_conf_content forwarder))"
proof -
  let ?backup = "''cp /etc/named.conf /etc/named.conf.bak 2>/dev/null || true''"
  define rest :: "unit op" where "rest =
        bnd (execute_command E ''named-checkconf'') (\<lambda>(_, stderr).
        if stderr \<noteq> [] then raise (DNSConfigError (''named.conf syntax error: '' @ stderr))
        else
          bnd (run_commands E
                [''chown root:named /etc/named.conf'',
                 ''restorecon -v /etc/named.conf'',
                 ''chmod 640 /etc/named.conf'']) (\<lambda>_.
          bnd (execute_command E ''systemctl restart named'') (\<lambda>_.
          bnd (execute_command E ''systemctl is-active named'') (\<lambda>(stdout, _).
          if \<not> py_in ''active'' stdout
          then raise (DNSConfigError ''named failed to start after configuration'')
          else ret ()))))"
  define s4 where "s4 = (\<lambda>forwarder.
        bnd (sftp_write E named_conf (named_conf_content forwarder)) (\<lambda>_. rest))"
  define s3 where "s3 = bnd (lift (getitem config ''forwarder'')) s4"
  define s2 where "s2 = bnd (execute_command E ?backup) (\<lambda>_. s3)"
  define body where "body = bnd (named_install E) (\<lambda>_. s2)"
  have shape: "named_configure E config =
      catch body (\<lambda>e. raise (DNSConfigError (''Failed to configure BIND: '' @ str_exn e)))"
    unfolding named_configure_def body_def s2_def s3_def s4_def rest_def by simp
  have noput: "\<And>r. \<forall>p c. Exec x r \<noteq> Put p c" for x by simp
  have install_np: "emits (\<lambda>e. \<forall>p c. e \<noteq> Put p c) (named_install E)"
    by (rule named_install_emits) simp
  have rest_np: "emits (\<lambda>e. \<forall>p c. e \<noteq> Put p c) rest"
    unfolding rest_def by (intro emits_intros) auto
  from ok have ok0: "fst (body w) = Inr ()" by (simp add: shape fst_catch_ok)
  have fin: "snd (named_configure E config w) = snd (body w)"
    by (simp add: shape snd_catch_raise)
  have ev: "events_of (named_configure E config) w = events_of body w"
    by (simp add: shape events_catch_raise)
  \<comment> \<open>the install step\<close>
  define w1 where "w1 = snd (named_install E w)"
  from ok0 obtain x1 :: unit where b1: "body w = s2 w1"
    unfolding body_def w1_def by (rule bnd_ok)
  have t1: "trace w1 = trace w @ events_of (named_install E) w"
    and p1: "puts (events_of (named_install E) w) = []"
    unfolding w1_def using emitsD[OF install_np, of w] by (auto intro: puts_none)
  \<comment> \<open>the backup\<close>
  define w2 where "w2 = snd (execute_command E ?backup w1)"
  from ok0 b1 have "fst (s2 w1) = Inr ()" by simp
  then obtain x2 :: "string \<times> string" where b2: "s2 w1 = s3 w2"
    unfolding s2_def w2_def by (rule bnd_ok)
  have t2: "trace w2 = trace w1 @ [Exec ?backup (fst (shell E w1 ?backup))]"
    unfolding w2_def by (simp add: execute_command_def split: prod.splits)
  \<comment> \<open>the forwarder\<close>
  from ok0 b1 b2 have ok3: "fst (s3 w2) = Inr ()" by simp
  then obtain forwarder where fw: "config ''forwarder'' = Some forwarder"
    and b3: "s3 w2 = s4 forwarder w2"
    unfolding s3_def by (auto simp: bnd_def lift_def getitem_def split: option.splits)
  \<comment> \<open>the write\<close>
  define w3 where "w3 = snd (sftp_write E named_conf (named_conf_content forwarder) w2)"
  from ok3 b3 have ok4: "fst (s4 forwarder w2) = Inr ()" by simp
  then obtain x4 :: unit where wr: "sftp_write E named_conf (named_conf_content forwarder) w2 = (Inr x4, w3)"
    and b4: "s4 forwarder w2 = rest w3"
    unfolding s4_def w3_def by (rule bnd_ok)
  from wr have t3: "trace w3 = trace w2 @ [Put named_conf (named_conf_content forwarder)]"
    and f3: "files w3 named_conf = Some (named_conf_content forwarder)"
    by (auto simp: sftp_write_def split: option.splits)
  \<comment> \<open>the rest\<close>
  have t4: "trace (snd (rest w3)) = trace w3 @ events_of rest w3"
    and p4: "puts (events_of rest w3) = []"
    using emitsD[OF rest_np, of w3] by (auto intro: puts_none)
  from b1 b2 b3 b4 have last: "body w = rest w3" by simp
  have evs: "events_of body w =
      events_of (named_install E) w @ [Exec ?backup (fst (shell E w1 ?backup))]
        @ [Put named_conf (named_conf_content forwarder)] @ events_of rest w3"
    using t1 t2 t3 t4 last by (simp add: events_of_def[of body])
  have files: "files (snd (body w)) named_conf = Some (named_conf_content forwarder)"
    if h: "\<forall>w c. snd (shell E w c) named_conf = files w named_conf"
  proof -
    have "keeps named_conf rest"
      unfolding rest_def using h by (intro keeps_intros) auto
    then have "files (snd (rest w3)) named_conf = files w3 named_conf"
      by (simp add: keeps_def)
    with last f3 show ?thesis by simp
  qed
  from fw evs p1 p4 files show ?thesis
    unfolding ev fin by (auto simp: puts_append cmds_append)
qed

section \<open>Running the operations on the concrete hosts\<close>

lemmas run_simps =
  bnd_def catch_def ret_def raise_def lift_def time_time_def execute_command_def
  sftp_write_def sftp_append_def sftp_read_def getitem_def events_of_def

lemmas host_simps =
  host_conf_error_def host_zone_error_def host_zone_stdout_def host_down_def
  host_inactive_def host_ok_def answer_ok_def world0_def

lemmas zone_simps =
  add_zone_def zone_example_def render_zone_def get_records_def zone_file_path_def
  zones_dir_def

lemmas ptr_simps =
  add_ptr_zone_def ptr_example_def reverse_zone_def get_records_def zone_file_path_def
  zones_dir_def

lemmas re_simps =
  re_sub_zone_def match_stanza_def zone_pattern_def specials_def two_zones_def
  world_two_zones_def named_conf_def

lemmas dnsmasq_simps =
  dnsmasq_configure_def dnsmasq_install_def dnsmasq_conf_content_def config_path_def

lemmas configure_simps = named_configure_def named_install_def named_conf_def

text \<open>
  Every failure inside one of the operations below comes out as the configuration error
  whose message is the operation's prefix followed by the message of what failed.
\<close>

lemma catch_raise_kind:
  assumes "fst (catch m (\<lambda>e. raise (DNSConfigError (h e))) w) = Inl e"
  shows "\<exists>e0. fst (m w) = Inl e0 \<and> e = DNSConfigError (h e0)"
  using assms by (cases "m w") (auto simp: catch_def raise_def split: sum.splits)

lemma operations_wrap_errors:
  "fst (named_configure E config w) = Inl e \<Longrightarrow>
     \<exists>e0. e = DNSConfigError (''Failed to configure BIND: '' @ str_exn e0)"
  "fst (add_zone E zn zc w) = Inl e \<Longrightarrow>
     \<exists>e0. e = DNSConfigError (''Zone configuration failed: '' @ str_exn e0)"
  "fst (add_ptr_zone E network zc w) = Inl e \<Longrightarrow>
     \<exists>e0. e = DNSConfigError (''PTR zone configuration failed: '' @ str_exn e0)"
  "fst (delete_zone E zn w) = Inl e \<Longrightarrow>
     \<exists>e0. e = DNSConfigError (''Zone deletion failed: '' @ str_exn e0)"
  unfolding named_configure_def add_zone_def add_ptr_zone_def delete_zone_def
  by (auto dest!: catch_raise_kind)

lemma connect_error_names_host:
  "fst (connect E c w) = Inl e \<Longrightarrow>
     \<exists>m. connect_error E w c = Some m \<and>
         e = DNSConfigError (''Failed to connect to '' @ hostname c @ '': '' @ m)"
  by (auto simp: connect_def split: option.splits)

text \<open>
  \<open>delete_zone\<close> with a zone name of ordinary characters and dots never rewrites the main
  configuration: it ends with the configuration error, and the only command it issues
  is the removal of the zone file.
\<close>

lemma delete_zone_never_rewrites:
  assumes "name_atoms zone_name \<noteq> None"
  shows "(\<exists>m. fst (delete_zone E zone_name w) = Inl (DNSConfigError m)) \<and>
         (\<forall>e\<in>set (events_of (delete_zone E zone_name) w).
            \<exists>r. e = Exec (''rm -f '' @ zone_file_path zone_name) r)"
  using assms
  by (auto simp: delete_zone_def re_sub_zone_def run_simps
           split: prod.splits sum.splits option.splits)

text \<open>
  The pattern itself, applied to text: a name without a dot takes out the one stanza, a
  name with dots also takes out the stanza of a name that differs at a dot.
\<close>

lemma re_sub_on_text:
  \<open>re_sub_zone host_ok ''lab-example.com'' (Str two_zones) =
     Inr (''\<newline>'' @
          ''zone "lab.example.com" IN { type master; file "db.lab.example.com"; };\<newline>'')\<close>
  \<open>re_sub_zone host_ok ''lab.example.com'' (Str two_zones) = Inr ''\<newline>\<newline>''\<close>
  by (simp_all add: re_simps)

section \<open>The claims\<close>

text \<open>
  C2, as amended. In a run of \<open>configure\<close> or \<open>add_zone\<close> in which \<open>named-checkconf\<close>
  answers with a non-empty stderr, or in a run of \<open>add_zone\<close> in which
  \<open>named-checkzone\<close> answers with a stderr that is non-empty and lacks \<open>OK\<close>, the
  operation ends with the configuration error and the restart of the service is never
  issued. (The empty stderr of \<open>named-checkzone\<close> is accepted, whatever its stdout.)
\<close>

theorem checker_error_aborts:
  "(Exec ''named-checkconf'' (Inr (out, err)) \<in> set (events_of (named_configure E config) w)
      \<and> err \<noteq> [] \<longrightarrow> aborted (named_configure E config) w) \<and>
   (Exec ''named-checkconf'' (Inr (out, err)) \<in> set (events_of (add_zone E zn zc) w)
      \<and> err \<noteq> [] \<longrightarrow> aborted (add_zone E zn zc) w) \<and>
   (Exec (''named-checkzone '' @ zn @ '' '' @ zone_file_path zn) (Inr (out, err))
        \<in> set (events_of (add_zone E zn zc) w)
      \<and> err \<noteq> [] \<and> \<not> py_in ''OK'' err \<longrightarrow> aborted (add_zone E zn zc) w)"
  using configure_check_aborts add_zone_conf_check_aborts add_zone_file_check_aborts by blast

theorem checker_error_aborts_witness:
  "aborted (named_configure host_conf_error [''forwarder'' \<mapsto> ''8.8.8.8'']) world0 \<and>
   aborted (add_zone host_conf_error ''example.com'' zone_example) world0 \<and>
   aborted (add_zone host_zone_error ''example.com'' zone_example) world0"
proof -
  have h1: "Exec ''named-checkconf'' (Inr ([], ''/etc/named.conf:30: missing ;''))
              \<in> set (events_of (named_configure host_conf_error [''forwarder'' \<mapsto> ''8.8.8.8''])
                        world0)"
    by (simp add: named_configure_def named_install_def host_simps run_simps)
  have h2: "Exec ''named-checkconf'' (Inr ([], ''/etc/named.conf:30: missing ;''))
              \<in> set (events_of (add_zone host_conf_error ''example.com'' zone_example) world0)"
    by (simp add: zone_simps host_simps run_simps)
  have h3: "Exec (''named-checkzone '' @ ''example.com'' @ '' '' @ zone_file_path ''example.com'')
               (Inr ([], ''zone example.com/IN: not loaded due to errors.''))
              \<in> set (events_of (add_zone host_zone_error ''example.com'' zone_example) world0)"
    by (simp add: zone_simps host_simps run_simps)
  show ?thesis
    using checker_error_aborts[of "[]" "''/etc/named.conf:30: missing ;''" host_conf_error
            "[''forwarder'' \<mapsto> ''8.8.8.8'']" world0 "''example.com''" zone_example]
          checker_error_aborts[of "[]" "''zone example.com/IN: not loaded due to errors.''"
            host_zone_error "[''forwarder'' \<mapsto> ''8.8.8.8'']" world0 "''example.com''"
            zone_example]
          h1 h2 h3
    by simp
qed

text \<open>
  C2 as stated fails: \<open>named-checkzone\<close> prints an error, without \<open>OK\<close>, on stdout and
  nothing on stderr; \<open>add_zone\<close> then restarts the service and returns normally.
\<close>

theorem zone_check_stdout_counterexample:
  "Exec ''named-checkzone example.com /var/named/db.example.com''
      (Inr (''zone example.com/IN: not loaded due to errors.'', []))
     \<in> set (events_of (add_zone host_zone_stdout ''example.com'' zone_example) world0) \<and>
   \<not> py_in ''OK'' ''zone example.com/IN: not loaded due to errors.'' \<and>
   fst (add_zone host_zone_stdout ''example.com'' zone_example world0) = Inr () \<and>
   Exec ''systemctl restart named'' (Inr ([], []))
     \<in> set (events_of (add_zone host_zone_stdout ''example.com'' zone_example) world0)"
  by (simp add: zone_simps host_simps run_simps)

text \<open>
  C1, at the failing input. The main configuration holds the two simple stanzas of
  \<open>lab-example.com\<close> and \<open>lab.example.com\<close>. \<open>delete_zone('lab.example.com')\<close> removes
  the zone file and reads the main configuration, as bytes; \<open>re.sub\<close> with its text
  pattern then raises, and the operation ends with the configuration error. No stanza
  is removed: the main configuration is as it was, and nothing is written or restarted.
\<close>

theorem delete_zone_raises_on_bytes:
  "fst (delete_zone host_ok ''lab.example.com'' world_two_zones) =
     Inl (DNSConfigError
            ''Zone deletion failed: cannot use a string pattern on a bytes-like object'') \<and>
   files (snd (delete_zone host_ok ''lab.example.com'' world_two_zones)) named_conf =
     Some two_zones \<and>
   events_of (delete_zone host_ok ''lab.example.com'') world_two_zones =
     [Exec ''rm -f /var/named/db.lab.example.com'' (Inr ([], []))]"
  by (simp add: delete_zone_def re_sub_zone_def specials_def world_two_zones_def
        named_conf_def host_simps run_simps zone_file_path_def zones_dir_def)

text \<open>
  C4. For a CNAME record, the loop of \<open>add_zone\<close> appends the line with the record's
  name and its value, where a value that contains a dot and does not end with a dot
  gets exactly one dot appended, and any other value (one without a dot among them)
  stays as it is.
\<close>

theorem cname_trailing_dot:
  assumes "record ''type'' = Some ''CNAME''"
    and "record ''name'' = Some n"
    and "record ''value'' = Some v"
  shows "add_cname_records (record # rest) zone_content =
           add_cname_records rest
             (zone_content @ n @ ''    IN    CNAME    ''
                @ (if CHR ''.'' \<in> set v \<and> last v \<noteq> CHR ''.'' then v @ ''.'' else v)
                @ ''\<newline>'')"
  using assms by (simp add: cname_value_spec spec_dot_terminated_def)

theorem cname_trailing_dot_witness:
  "add_cname_records
     [[''name'' \<mapsto> ''www'', ''type'' \<mapsto> ''CNAME'', ''value'' \<mapsto> ''web.example.com''],
      [''name'' \<mapsto> ''ftp'', ''type'' \<mapsto> ''CNAME'', ''value'' \<mapsto> ''www''],
      [''name'' \<mapsto> ''m'', ''type'' \<mapsto> ''CNAME'', ''value'' \<mapsto> ''mail.example.com.'']] [] =
   Inr (''www    IN    CNAME    web.example.com.\<newline>'' @
        ''ftp    IN    CNAME    www\<newline>'' @
        ''m    IN    CNAME    mail.example.com.\<newline>'')"
  using cname_trailing_dot[of "[''name'' \<mapsto> ''www'', ''type'' \<mapsto> ''CNAME'', ''value'' \<mapsto> ''web.example.com'']"
          "''www''" "''web.example.com''"
          "[[''name'' \<mapsto> ''ftp'', ''type'' \<mapsto> ''CNAME'', ''value'' \<mapsto> ''www''],
            [''name'' \<mapsto> ''m'', ''type'' \<mapsto> ''CNAME'', ''value'' \<mapsto> ''mail.example.com.'']]" "[]"]
        cname_trailing_dot[of "[''name'' \<mapsto> ''ftp'', ''type'' \<mapsto> ''CNAME'', ''value'' \<mapsto> ''www'']"
          "''ftp''" "''www''"
          "[[''name'' \<mapsto> ''m'', ''type'' \<mapsto> ''CNAME'', ''value'' \<mapsto> ''mail.example.com.'']]"
          "''www    IN    CNAME    web.example.com.\<newline>''"]
        cname_trailing_dot[of "[''name'' \<mapsto> ''m'', ''type'' \<mapsto> ''CNAME'', ''value'' \<mapsto> ''mail.example.com.'']"
          "''m''" "''mail.example.com.''" "[]"
          "''www    IN    CNAME    web.example.com.\<newline>'' @ ''ftp    IN    CNAME    www\<newline>''"]
  by simp



text \<open>
  C6. For a network address \<open>a.b.c.d\<close>, the reverse zone that \<open>add_ptr_zone\<close> derives is
  \<open>c.b.a.in-addr.arpa\<close>; the network 192.168.1.0 gives \<open>1.168.192.in-addr.arpa\<close>.
\<close>

theorem reverse_zone_name:
  assumes "CHR ''.'' \<notin> set a" and "CHR ''.'' \<notin> set b" and "CHR ''.'' \<notin> set c"
  shows "reverse_zone (a @ ''.'' @ b @ ''.'' @ c @ ''.'' @ d) =
           Inr (c @ ''.'' @ b @ ''.'' @ a @ ''.in-addr.arpa'')"
  using assms by (rule reverse_zone_quad)

theorem reverse_zone_name_witness:
  "reverse_zone ''192.168.1.0'' = Inr ''1.168.192.in-addr.arpa''"
  using reverse_zone_name[of "''192''" "''168''" "''1''" "''0''"] by simp

text \<open>
  C7. The loop of \<open>add_ptr_zone\<close> appends, for each record in input order, the line
  keyed on the last octet of the record's ip and naming the record's hostname, whenever
  every record has both entries; and every text that \<open>add_ptr_zone\<close> writes in a run is
  the header of the reverse zone followed by these lines, at the path of its zone file.
\<close>

theorem ptr_lines:
  "((\<forall>r\<in>set rs. r ''ip'' \<noteq> None \<and> r ''hostname'' \<noteq> None)
      \<longrightarrow> add_ptr_records rs zone_content =
            Inr (zone_content @ concat (map spec_ptr_line rs))) \<and>
   (Put p c \<in> set (events_of (add_ptr_zone E network zc) w)
      \<longrightarrow> (\<exists>rz. reverse_zone network = Inr rz \<and> p = zone_file_path rz \<and>
             c = ptr_header rz (clock E w) @ concat (map spec_ptr_line (get_records zc))))"
  using add_ptr_records_result add_ptr_zone_put add_ptr_records_form by blast

theorem ptr_lines_witness:
  "add_ptr_records (get_records ptr_example) [] =
     Inr (''50    IN    PTR    host1.example.com.\<newline>'' @
          ''7    IN    PTR    host2.example.com.\<newline>'') \<and>
   Put ''/var/named/db.1.168.192.in-addr.arpa''
       (ptr_header ''1.168.192.in-addr.arpa'' 1700000000 @
          ''50    IN    PTR    host1.example.com.\<newline>'' @
          ''7    IN    PTR    host2.example.com.\<newline>'')
     \<in> set (events_of (add_ptr_zone host_ok ''192.168.1.0'' ptr_example) world0)"
proof -
  have put: "Put ''/var/named/db.1.168.192.in-addr.arpa''
       (ptr_header ''1.168.192.in-addr.arpa'' 1700000000 @
          ''50    IN    PTR    host1.example.com.\<newline>'' @
          ''7    IN    PTR    host2.example.com.\<newline>'')
     \<in> set (events_of (add_ptr_zone host_ok ''192.168.1.0'' ptr_example) world0)"
    by (simp add: ptr_simps host_simps run_simps)
  have keys: "\<forall>r\<in>set (get_records ptr_example). r ''ip'' \<noteq> None \<and> r ''hostname'' \<noteq> None"
    by (simp add: get_records_def ptr_example_def)
  have lines: "concat (map spec_ptr_line (get_records ptr_example)) =
      ''50    IN    PTR    host1.example.com.\<newline>'' @ ''7    IN    PTR    host2.example.com.\<newline>''"
    by (simp add: get_records_def ptr_example_def spec_ptr_line_def spec_last_octet_def)
  show ?thesis
    using ptr_lines[where rs = "get_records ptr_example" and zone_content = "[]"
            and E = host_ok and network = "''192.168.1.0''" and zc = ptr_example and w = world0
            and p = "''/var/named/db.1.168.192.in-addr.arpa''"]
          put keys lines
    by simp
qed

text \<open>
  C8, at the failing inputs. On a host whose session is gone, \<open>install\<close> of either
  configurator lets the exception of its first command through as it is: the package
  query stands before the \<open>try\<close>. (The same failure inside \<open>configure\<close> comes out as the
  configuration error that wraps the message.) And on a host whose service reports
  \<open>inactive\<close>, \<open>configure\<close> raises nothing: the text \<open>inactive\<close> contains \<open>active\<close>.
\<close>

theorem failures_not_wrapped:
  "fst (named_install host_down world0) = Inl (RemoteError ''SSH session not active'') \<and>
   fst (dnsmasq_install host_down world0) = Inl (RemoteError ''SSH session not active'') \<and>
   fst (named_configure host_down [''forwarder'' \<mapsto> ''8.8.8.8''] world0) =
     Inl (DNSConfigError ''Failed to configure BIND: SSH session not active'') \<and>
   Exec ''systemctl is-active named'' (Inr (''inactive'', []))
     \<in> set (events_of (named_configure host_inactive [''forwarder'' \<mapsto> ''8.8.8.8'']) world0) \<and>
   fst (named_configure host_inactive [''forwarder'' \<mapsto> ''8.8.8.8''] world0) = Inr ()"
  by (simp add: named_install_def dnsmasq_install_def named_configure_def host_simps run_simps)

text \<open>
  C10. A record whose type is neither \<open>A\<close> nor \<open>CNAME\<close> leaves no line in the rendered
  zone file and raises nothing: with or without it in the list, the rendering and the
  whole of \<open>add_zone\<close> are the same.
\<close>

theorem other_types_ignored:
  assumes "r ''type'' = Some t" and "t \<noteq> ''A''" and "t \<noteq> ''CNAME''"
  shows "render_zone zn now (zc\<lparr>records := Some (xs @ r # ys)\<rparr>) =
           render_zone zn now (zc\<lparr>records := Some (xs @ ys)\<rparr>) \<and>
         add_zone E zn (zc\<lparr>records := Some (xs @ r # ys)\<rparr>) =
           add_zone E zn (zc\<lparr>records := Some (xs @ ys)\<rparr>)"
proof -
  have r: "render_zone zn now (zc\<lparr>records := Some (xs @ r # ys)\<rparr>) =
           render_zone zn now (zc\<lparr>records := Some (xs @ ys)\<rparr>)" for now
    using assms
    by (simp add: render_zone_def get_records_def add_a_records_skip add_cname_records_skip
          split: sum.splits)
  have z: "zone_conf zn (zc\<lparr>records := Some (xs @ r # ys)\<rparr>) =
           zone_conf zn (zc\<lparr>records := Some (xs @ ys)\<rparr>)"
    by (simp add: zone_conf_def)
  show ?thesis using r z by (simp add: add_zone_def)
qed

theorem other_types_ignored_witness:
  "render_zone ''example.com'' 1700000000
     (zone_example\<lparr>records := Some
        ([[''name'' \<mapsto> ''@'', ''type'' \<mapsto> ''A'', ''value'' \<mapsto> ''192.168.1.10'']]
         @ [''name'' \<mapsto> ''@'', ''type'' \<mapsto> ''MX'', ''value'' \<mapsto> ''10 mail'']
         # [])\<rparr>) =
   Inr (zone_header ''example.com'' 1700000000 @ ''@    IN    A    192.168.1.10\<newline>'')"
  using other_types_ignored[where r = "[''name'' \<mapsto> ''@'', ''type'' \<mapsto> ''MX'', ''value'' \<mapsto> ''10 mail'']"
          and t = "''MX''" and zn = "''example.com''" and now = 1700000000 and zc = zone_example
          and xs = "[[''name'' \<mapsto> ''@'', ''type'' \<mapsto> ''A'', ''value'' \<mapsto> ''192.168.1.10'']]"
          and ys = "[]" and E = host_ok]
  by (simp add: render_zone_def get_records_def)

text \<open>
  C3. When \<open>configure\<close> is called twice in succession with the same options and both
  calls end normally, each call writes exactly one file, the main configuration, with
  the same text, which is the template filled with the forwarder of the options; each
  call issues the backup command, so the second overwrites the backup; on a host
  whose commands leave the text of the main configuration alone, the file holds that
  text after the first call and after the second; and whatever the host and the world,
  a run of \<open>configure\<close> with these options writes nothing but that text to that file.
\<close>

theorem configure_twice:
  assumes "fst (named_configure E config w) = Inr ()"
    and "fst (named_configure E config (snd (named_configure E config w))) = Inr ()"
  shows "\<exists>forwarder. config ''forwarder'' = Some forwarder \<and>
           puts (events_of (named_configure E config) w) =
             [(named_conf, named_conf_content forwarder)] \<and>
           puts (events_of (named_configure E config) (snd (named_configure E config w))) =
             [(named_conf, named_conf_content forwarder)] \<and>
           ''cp /etc/named.conf /etc/named.conf.bak 2>/dev/null || true''
             \<in> set (cmds (events_of (named_configure E config) w)) \<and>
           ''cp /etc/named.conf /etc/named.conf.bak 2>/dev/null || true''
             \<in> set (cmds (events_of (named_configure E config)
                             (snd (named_configure E config w)))) \<and>
           ((\<forall>w c. snd (shell E w c) named_conf = files w named_conf) \<longrightarrow>
              files (snd (named_configure E config w)) named_conf =
                Some (named_conf_content forwarder) \<and>
              files (snd (named_configure E config (snd (named_configure E config w))))
                named_conf = Some (named_conf_content forwarder)) \<and>
           (\<forall>E' w' p c. Put p c \<in> set (events_of (named_configure E' config) w') \<longrightarrow>
              p = named_conf \<and> c = named_conf_content forwarder)"
proof -
  from configure_success[OF assms(1)] obtain f1 where
    1: "config ''forwarder'' = Some f1"
      "puts (events_of (named_configure E config) w) = [(named_conf, named_conf_content f1)]"
      "''cp /etc/named.conf /etc/named.conf.bak 2>/dev/null || true''
             \<in> set (cmds (events_of (named_configure E config) w))"
      "(\<forall>w c. snd (shell E w c) named_conf = files w named_conf) \<longrightarrow>
              files (snd (named_configure E config w)) named_conf =
                Some (named_conf_content f1)"
    by blast
  from configure_success[OF assms(2)] obtain f2 where
    2: "config ''forwarder'' = Some f2"
      "puts (events_of (named_configure E config) (snd (named_configure E config w))) =
         [(named_conf, named_conf_content f2)]"
      "''cp /etc/named.conf /etc/named.conf.bak 2>/dev/null || true''
             \<in> set (cmds (events_of (named_configure E config)
                             (snd (named_configure E config w))))"
      "(\<forall>w c. snd (shell E w c) named_conf = files w named_conf) \<longrightarrow>
              files (snd (named_configure E config (snd (named_configure E config w))))
                named_conf = Some (named_conf_content f2)"
    by blast
  from 1(1) 2(1) have "f2 = f1" by simp
  moreover have "\<forall>E' w' p c. Put p c \<in> set (events_of (named_configure E' config) w') \<longrightarrow>
              p = named_conf \<and> c = named_conf_content f1"
    using configure_put 1(1) by fastforce
  ultimately show ?thesis using 1 2 by blast
qed

theorem configure_twice_witness:
  "fst (named_configure host_ok [''forwarder'' \<mapsto> ''8.8.8.8''] world0) = Inr () \<and>
   fst (named_configure host_ok [''forwarder'' \<mapsto> ''8.8.8.8'']
          (snd (named_configure host_ok [''forwarder'' \<mapsto> ''8.8.8.8''] world0))) = Inr () \<and>
   files (snd (named_configure host_ok [''forwarder'' \<mapsto> ''8.8.8.8''] world0)) named_conf =
     Some (named_conf_content ''8.8.8.8'') \<and>
   files (snd (named_configure host_ok [''forwarder'' \<mapsto> ''8.8.8.8'']
                 (snd (named_configure host_ok [''forwarder'' \<mapsto> ''8.8.8.8''] world0))))
     named_conf = Some (named_conf_content ''8.8.8.8'') \<and>
   puts (events_of (named_configure host_ok [''forwarder'' \<mapsto> ''8.8.8.8''])
           (snd (named_configure host_ok [''forwarder'' \<mapsto> ''8.8.8.8''] world0))) =
     [(named_conf, named_conf_content ''8.8.8.8'')]"
proof -
  have ok1: "fst (named_configure host_ok [''forwarder'' \<mapsto> ''8.8.8.8''] world0) = Inr ()"
    by (simp add: configure_simps host_simps run_simps)
  have ok2: "fst (named_configure host_ok [''forwarder'' \<mapsto> ''8.8.8.8'']
          (snd (named_configure host_ok [''forwarder'' \<mapsto> ''8.8.8.8''] world0))) = Inr ()"
    by (simp add: configure_simps host_simps run_simps)
  have quiet: "\<forall>w c. snd (shell host_ok w c) named_conf = files w named_conf"
    by (simp add: host_ok_def)
  from configure_twice[OF ok1 ok2] quiet ok1 ok2 show ?thesis
    by auto
qed

text \<open>
  C9, as amended. Every text that the dnsmasq \<open>configure\<close> writes goes to the
  configuration file and consists of the line naming the upstream server from the
  options, a line break, and the line naming the cache size (\<open>0\<close> when the options give
  none); when neither of the two values holds a line break, these are exactly the two
  lines of the text.
\<close>

theorem dnsmasq_two_lines:
  assumes "Put p c \<in> set (events_of (dnsmasq_configure E config) w)"
  shows "p = config_path \<and>
         (\<exists>upstream_dns cache_size.
            config ''upstream_dns'' = Some upstream_dns \<and>
            cache_size = (case config ''cache_size'' of None \<Rightarrow> ''0'' | Some v \<Rightarrow> v) \<and>
            c = ''server='' @ upstream_dns @ ''\<newline>'' @ ''cache-size='' @ cache_size \<and>
            (CHR ''\<newline>'' \<notin> set upstream_dns \<and> CHR ''\<newline>'' \<notin> set cache_size \<longrightarrow>
               split CHR ''\<newline>'' c = [''server='' @ upstream_dns, ''cache-size='' @ cache_size]))"
proof -
  from dnsmasq_put[OF assms] obtain conf_content where p: "p = config_path"
    and cc: "dnsmasq_conf_content config = Inr conf_content"
    and c: "c = join ''\<newline>'' conf_content"
    by blast
  from cc obtain u where u: "config ''upstream_dns'' = Some u"
    and ls: "conf_content = [''server='' @ u,
        ''cache-size='' @ (case config ''cache_size'' of None \<Rightarrow> str_int 0 | Some v \<Rightarrow> v)]"
    by (auto simp: dnsmasq_conf_content_def getitem_def split: option.splits)
  define cs where "cs = (case config ''cache_size'' of None \<Rightarrow> ''0'' | Some v \<Rightarrow> v)"
  have zero: "str_int 0 = ''0''" by (simp add: str_int_def digit_def)
  from c ls zero have ctext: "c = ''server='' @ u @ ''\<newline>'' @ ''cache-size='' @ cs"
    by (simp add: cs_def split: option.splits)
  have lines: "split CHR ''\<newline>'' c = [''server='' @ u, ''cache-size='' @ cs]"
    if "CHR ''\<newline>'' \<notin> set u" "CHR ''\<newline>'' \<notin> set cs"
  proof -
    have a: "CHR ''\<newline>'' \<notin> set (''server='' @ u)" using that by simp
    have b: "CHR ''\<newline>'' \<notin> set (''cache-size='' @ cs)" using that by simp
    have "c = (''server='' @ u) @ CHR ''\<newline>'' # (''cache-size='' @ cs)"
      using ctext by simp
    then show ?thesis
      using split_append[OF a, of "''cache-size='' @ cs"] split_no_sep[OF b] by simp
  qed
  from p u ctext lines show ?thesis unfolding cs_def by blast
qed

theorem dnsmasq_two_lines_witness:
  "Put ''/etc/dnsmasq.conf'' ''server=8.8.8.8\<newline>cache-size=150''
     \<in> set (events_of (dnsmasq_configure host_ok
                         [''upstream_dns'' \<mapsto> ''8.8.8.8'', ''cache_size'' \<mapsto> ''150'']) world0) \<and>
   split CHR ''\<newline>'' ''server=8.8.8.8\<newline>cache-size=150'' =
     [''server=8.8.8.8'', ''cache-size=150'']"
proof -
  have put: "Put ''/etc/dnsmasq.conf'' ''server=8.8.8.8\<newline>cache-size=150''
     \<in> set (events_of (dnsmasq_configure host_ok
                         [''upstream_dns'' \<mapsto> ''8.8.8.8'', ''cache_size'' \<mapsto> ''150'']) world0)"
    by (simp add: dnsmasq_simps host_simps run_simps)
  have lines: "split CHR ''\<newline>'' ''server=8.8.8.8\<newline>cache-size=150'' =
     [''server=8.8.8.8'', ''cache-size=150'']"
    by simp
  have "''/etc/dnsmasq.conf'' = config_path"
    using dnsmasq_two_lines[OF put] by (rule conjunct1)
  with put lines show ?thesis by (simp only: simp_thms)
qed

text \<open>
  C9 as stated fails: the option values are written as they are, so an upstream server
  that holds a line break gives a configuration of three lines.
\<close>

theorem dnsmasq_three_lines_counterexample:
  "Put ''/etc/dnsmasq.conf'' ''server=8.8.8.8\<newline>address=/x/6.6.6.6\<newline>cache-size=150''
     \<in> set (events_of
              (dnsmasq_configure host_ok
                 [''upstream_dns'' \<mapsto> ''8.8.8.8\<newline>address=/x/6.6.6.6'',
                  ''cache_size'' \<mapsto> ''150''])
              world0) \<and>
   split CHR ''\<newline>'' ''server=8.8.8.8\<newline>address=/x/6.6.6.6\<newline>cache-size=150'' =
     [''server=8.8.8.8'', ''address=/x/6.6.6.6'', ''cache-size=150'']"
  by (simp add: dnsmasq_simps host_simps run_simps)

end
